theory Spec2Isabelle
  imports Main "HOL-Library.Word" "HOL-Library.Multiset"
begin

section \<open>Repository configuration (package config)\<close>

text \<open>
  Go strings are byte sequences, modelled as \<^typ>\<open>string\<close>. A nil pointer or a nil slice
  is \<^term>\<open>None\<close>; a slice that is present (possibly empty) is \<^term>\<open>Some xs\<close>.
\<close>

type_synonym SecretMessage = string

record UrlPattern =
  BaseUrl :: string
  Anchor :: string

record Repo =
  AccessKeys :: "string list option"
  OAuthAuthorization :: "bool option"
  Url :: string
  MsBetweenPolls :: int
  Vcs :: string
  VcsConfigMessage :: "SecretMessage option"
  UrlPattern :: "UrlPattern option"
  ExcludeDotFiles :: bool
  EnablePollUpdates :: "bool option"
  EnablePushUpdates :: "bool option"

definition defaultPushEnabled :: bool where
  "defaultPushEnabled = False"

definition defaultPollEnabled :: bool where
  "defaultPollEnabled = True"

text \<open>\<open>optionToBool\<close>: the value behind the pointer when there is one, the default otherwise.\<close>

fun optionToBool :: "bool option \<Rightarrow> bool \<Rightarrow> bool" where
  "optionToBool None def = def"
| "optionToBool (Some val) def = val"

text \<open>\<open>iterateCompare\<close>: the loop returns at the first candidate equal to the value.\<close>

fun iterateCompare :: "string list \<Rightarrow> string \<Rightarrow> bool" where
  "iterateCompare [] v = False"
| "iterateCompare (candidate # rest) v = (if candidate = v then True else iterateCompare rest v)"

text \<open>
  \<open>Repo.CheckAccess\<close>: the three branches of the source in their order; a branch whose
  inner test fails falls through to the final \<open>return false\<close>.
\<close>

definition CheckAccess :: "Repo \<Rightarrow> string \<Rightarrow> string list \<Rightarrow> bool" where
  "CheckAccess r accessKey repoURLs =
     (case AccessKeys r of
        Some keys \<Rightarrow> (if iterateCompare keys accessKey then True else False)
      | None \<Rightarrow>
          (case OAuthAuthorization r of
             Some marker \<Rightarrow> (if iterateCompare repoURLs (Url r) then True else False)
           | None \<Rightarrow> True))"

definition PollUpdatesEnabled :: "Repo \<Rightarrow> bool" where
  "PollUpdatesEnabled r = optionToBool (EnablePollUpdates r) defaultPollEnabled"

definition PushUpdatesEnabled :: "Repo \<Rightarrow> bool" where
  "PushUpdatesEnabled r = optionToBool (EnablePushUpdates r) defaultPushEnabled"

text \<open>A repository with nothing configured, used to build concrete examples.\<close>

definition emptyRepo :: Repo where
  "emptyRepo = \<lparr>AccessKeys = None, OAuthAuthorization = None, Url = [], MsBetweenPolls = 0,
     Vcs = [], VcsConfigMessage = None, UrlPattern = None, ExcludeDotFiles = False,
     EnablePollUpdates = None, EnablePushUpdates = None\<rparr>"


section \<open>Request parameters (package api)\<close>

definition defaultLinesOfContext :: nat where
  "defaultLinesOfContext = 2"

definition maxLinesOfContext :: nat where
  "maxLinesOfContext = 20"

text \<open>
  \<open>strconv.ParseUint(s, 10, bitSize)\<close> of the Go standard library, for base 10: the empty
  string and every byte that is not a decimal digit are syntax errors (no sign, no
  underscore in base 10), and a value above \<open>2 ^ bitSize - 1\<close> is a range error. The
  library's loop is kept: \<open>cutoff\<close> is the least \<open>n\<close> with \<open>n * 10\<close> above the largest
  \<open>uint64\<close>; the library's test \<open>n1 < n || n1 > maxVal\<close> for the wrapped sum is, on
  unbounded naturals, the single test \<open>n1 > maxVal\<close>.
\<close>

datatype NumError = ErrSyntax | ErrRange

definition digitVal :: "char \<Rightarrow> nat option" where
  "digitVal c = (let n = (of_char c :: nat) in if 48 \<le> n \<and> n \<le> 57 then Some (n - 48) else None)"

definition cutoff :: nat where
  "cutoff = (2 ^ 64 - 1) div 10 + 1"

fun parseUintLoop :: "nat \<Rightarrow> nat \<Rightarrow> string \<Rightarrow> NumError + nat" where
  "parseUintLoop maxVal n [] = Inr n"
| "parseUintLoop maxVal n (c # cs) =
     (case digitVal c of
        None \<Rightarrow> Inl ErrSyntax
      | Some d \<Rightarrow>
          if n \<ge> cutoff then Inl ErrRange
          else (let n1 = n * 10 + d in
                if n1 > maxVal then Inl ErrRange else parseUintLoop maxVal n1 cs))"

definition ParseUint :: "string \<Rightarrow> nat \<Rightarrow> NumError + nat" where
  "ParseUint s bitSize = (if s = [] then Inl ErrSyntax else parseUintLoop (2 ^ bitSize - 1) 0 s)"

text \<open>
  \<open>parseAsUintValue\<close>. The parsed value is below \<open>2 ^ 54\<close>, so the conversion to \<open>uint\<close>
  loses nothing and the comparisons are those of the naturals. The second clamp returns
  \<open>max\<close>, as the source does.
\<close>

definition parseAsUintValue :: "string \<Rightarrow> nat \<Rightarrow> nat \<Rightarrow> nat \<Rightarrow> nat" where
  "parseAsUintValue sv minv maxv def =
     (case ParseUint sv 54 of
        Inl e \<Rightarrow> def
      | Inr iv \<Rightarrow>
          if maxv \<noteq> 0 \<and> iv > maxv then maxv
          else if minv \<noteq> 0 \<and> iv < minv then maxv
          else iv)"

text \<open>The search handler's reading of the \<open>ctx\<close> form value into \<open>opt.LinesOfContext\<close>.\<close>

definition LinesOfContext :: "string \<Rightarrow> nat" where
  "LinesOfContext ctx = parseAsUintValue ctx 0 maxLinesOfContext defaultLinesOfContext"


section \<open>Strings (Go standard library)\<close>

text \<open>
  \<open>strings.TrimSpace\<close> removes the leading and the trailing white-space runes
  (\<open>unicode.IsSpace\<close>). On the bytes of a string these are the six ASCII spaces and the
  UTF-8 encodings of U+0085, U+00A0, U+1680, U+2000 to U+200A, U+2028, U+2029, U+202F,
  U+205F and U+3000; a byte sequence that is not valid UTF-8 decodes to U+FFFD, which is
  not a space. No listed encoding is a prefix or a suffix of another.
\<close>

definition spaceRunes :: "string list" where
  "spaceRunes =
     [[CHR 0x09], [CHR 0x0A], [CHR 0x0B], [CHR 0x0C], [CHR 0x0D], [CHR 0x20],
      [CHR 0xC2, CHR 0x85], [CHR 0xC2, CHR 0xA0], [CHR 0xE1, CHR 0x9A, CHR 0x80],
      [CHR 0xE2, CHR 0x80, CHR 0x80], [CHR 0xE2, CHR 0x80, CHR 0x81],
      [CHR 0xE2, CHR 0x80, CHR 0x82], [CHR 0xE2, CHR 0x80, CHR 0x83],
      [CHR 0xE2, CHR 0x80, CHR 0x84], [CHR 0xE2, CHR 0x80, CHR 0x85],
      [CHR 0xE2, CHR 0x80, CHR 0x86], [CHR 0xE2, CHR 0x80, CHR 0x87],
      [CHR 0xE2, CHR 0x80, CHR 0x88], [CHR 0xE2, CHR 0x80, CHR 0x89],
      [CHR 0xE2, CHR 0x80, CHR 0x8A], [CHR 0xE2, CHR 0x80, CHR 0xA8],
      [CHR 0xE2, CHR 0x80, CHR 0xA9], [CHR 0xE2, CHR 0x80, CHR 0xAF],
      [CHR 0xE2, CHR 0x81, CHR 0x9F], [CHR 0xE3, CHR 0x80, CHR 0x80]]"

text \<open>The length in bytes of the listed rune the string starts with, 0 when there is none.\<close>

fun leadingRune :: "string list \<Rightarrow> string \<Rightarrow> nat" where
  "leadingRune [] s = 0"
| "leadingRune (p # ps) s =
     (if p \<noteq> [] \<and> take (length p) s = p then length p else leadingRune ps s)"

fun trimLeft :: "string list \<Rightarrow> string \<Rightarrow> string" where
  "trimLeft ps [] = []"
| "trimLeft ps (c # cs) =
     (case leadingRune ps (c # cs) of
        0 \<Rightarrow> c # cs
      | Suc k \<Rightarrow> trimLeft ps (drop k cs))"

definition TrimSpace :: "string \<Rightarrow> string" where
  "TrimSpace s = rev (trimLeft (map rev spaceRunes) (rev (trimLeft spaceRunes s)))"

text \<open>
  \<open>strings.Split(s, sep)\<close> for a separator of one byte: the pieces between the
  separators, so one piece more than there are separators (the empty string gives one
  empty piece).
\<close>

fun Split :: "string \<Rightarrow> char \<Rightarrow> string list" where
  "Split [] sep = [[]]"
| "Split (c # cs) sep =
     (if c = sep then [] # Split cs sep
      else (case Split cs sep of [] \<Rightarrow> [[c]] | piece # pieces \<Rightarrow> (c # piece) # pieces))"


section \<open>The registry and the searchers\<close>

text \<open>
  Modelled from the spec: package \<open>searcher\<close> is not among the sources. A \<open>Searcher\<close>
  carries the configuration of its repository, the field \<open>Repo\<close> that the handlers read.
\<close>

record Searcher =
  Repo :: Repo

text \<open>
  Modelled from the spec: \<open>Searcher.Update\<close> is not among the sources. It "returns false
  without error when push-based updates are disabled for that repository" and otherwise
  triggers an update and returns true.
\<close>

definition Update :: "Searcher \<Rightarrow> bool" where
  "Update s = PushUpdatesEnabled (Repo s)"

text \<open>
  The registry \<open>idx\<close> is a Go map from names to searchers. It is modelled as the list of
  its entries in the order in which a \<open>range\<close> statement happens to visit them (Go leaves
  that order open), with \<open>idx[name]\<close> read by \<^const>\<open>map_of\<close>; a missing name reads as
  \<open>nil\<close>, that is \<^term>\<open>None\<close>. The entries of a map have distinct names, and the
  registry holds no nil searcher.
\<close>

type_synonym registry = "(string \<times> Searcher) list"


section \<open>Resolving the requested repositories (package api)\<close>

text \<open>
  The wildcard branch of \<open>parseAsRepoList\<close>: \<open>for repo := range idx\<close>, where \<open>idx[repo]\<close>
  is the searcher of the entry visited.
\<close>

fun allRepos :: "registry \<Rightarrow> string \<Rightarrow> string list \<Rightarrow> string list" where
  "allRepos [] accessKey authRepos = []"
| "allRepos ((name, s) # entries) accessKey authRepos =
     (if CheckAccess (Repo s) accessKey authRepos
      then name # allRepos entries accessKey authRepos
      else allRepos entries accessKey authRepos)"

text \<open>The branch for an explicit list: a name that \<open>idx\<close> does not know is skipped.\<close>

fun namedRepos :: "registry \<Rightarrow> string list \<Rightarrow> string \<Rightarrow> string list \<Rightarrow> string list" where
  "namedRepos idx [] accessKey authRepos = []"
| "namedRepos idx (name # names) accessKey authRepos =
     (case map_of idx name of
        None \<Rightarrow> namedRepos idx names accessKey authRepos
      | Some s \<Rightarrow>
          if CheckAccess (Repo s) accessKey authRepos
          then name # namedRepos idx names accessKey authRepos
          else namedRepos idx names accessKey authRepos)"

definition parseAsRepoList :: "string \<Rightarrow> registry \<Rightarrow> string \<Rightarrow> string list \<Rightarrow> string list" where
  "parseAsRepoList v idx accessKey authRepos =
     (let v' = TrimSpace v in
      if v' = ''*'' then allRepos idx accessKey authRepos
      else namedRepos idx (Split v' (CHR '','')) accessKey authRepos)"


section \<open>The update handler (package api)\<close>

datatype payload = JsonData string | JsonError string

datatype response = Response nat payload

definition writeResp :: "string \<Rightarrow> response" where
  "writeResp data = Response 200 (JsonData data)"

definition writeError :: "string \<Rightarrow> nat \<Rightarrow> response" where
  "writeError msg status = Response status (JsonError msg)"

text \<open>
  The loop of the handler of \<open>/api/v1/update\<close> over the resolved names. The second
  component collects the names whose update was triggered before the response was written.
\<close>

fun updateRepos :: "registry \<Rightarrow> string list \<Rightarrow> string list \<Rightarrow> response \<times> string list" where
  "updateRepos idx [] triggered = (writeResp ''ok'', triggered)"
| "updateRepos idx (name # names) triggered =
     (case map_of idx name of
        None \<Rightarrow> (writeError (''No such repository: '' @ name) 404, triggered)
      | Some s \<Rightarrow>
          if \<not> Update s
          then (writeError (''Push updates are not enabled for repository '' @ name) 403, triggered)
          else updateRepos idx names (triggered @ [name]))"

definition updateHandler ::
  "string \<Rightarrow> string \<Rightarrow> registry \<Rightarrow> string \<Rightarrow> string list \<Rightarrow> response \<times> string list" where
  "updateHandler method reposParam idx accessKey authRepos =
     (if method \<noteq> ''POST'' then (writeError ''Method Not Allowed'' 405, [])
      else updateRepos idx (parseAsRepoList reposParam idx accessKey authRepos) [])"


section \<open>The search fan-out (package api)\<close>

text \<open>
  Go's \<open>int\<close>, on a 64-bit platform: addition wraps.
\<close>

type_synonym goint = "64 word"

text \<open>
  Modelled from the spec: package \<open>index\<close> is not among the sources. Of a
  \<open>SearchResponse\<close> the fan-out reads the matches (a slice, nil when the repository
  produced none) and the number of files opened; \<open>'m\<close> is the type of one file match.
\<close>

record 'm SearchResponse =
  Matches :: "'m list option"
  FilesOpened :: goint

text \<open>The message a search task puts on the channel: the struct \<open>searchResponse\<close>.\<close>

record 'm searchResponse =
  repo :: string
  res :: "'m SearchResponse option"
  err :: "string option"

text \<open>
  The tasks: one goroutine per name in \<open>repos\<close>, each sending the pair that
  \<open>idx[name].Search(query, opts)\<close> returned. The outcome of that call is the parameter
  \<open>search\<close>.
\<close>

definition tasks ::
  "(string \<Rightarrow> 'm SearchResponse option \<times> string option) \<Rightarrow> string list \<Rightarrow> 'm searchResponse list" where
  "tasks search repos =
     map (\<lambda>name. \<lparr>repo = name, res = fst (search name), err = snd (search name)\<rparr>) repos"

text \<open>
  What \<open>searchAll\<close> leaves behind: it panics, or it returns the pair of the result map
  (nil is \<^term>\<open>None\<close>) and the error, with the values then stored behind the
  pointers \<open>filesOpened\<close> and \<open>duration\<close>.
\<close>

datatype 'm searched =
  Panicked
| Returned "(string \<rightharpoonup> 'm SearchResponse) option" "string option" goint goint

text \<open>
  The receiving loop, over the messages in the order in which the channel delivers them
  (the order in which the tasks complete). A message with an error ends the function; one
  whose response has nil matches is skipped before the map and the counter are touched; a
  nil response without an error is a nil dereference. \<open>elapsed\<close> is the wall-clock time
  in milliseconds that the function measures once the loop is done.
\<close>

fun receive ::
  "'m searchResponse list \<Rightarrow> (string \<rightharpoonup> 'm SearchResponse) \<Rightarrow> goint \<Rightarrow> goint \<Rightarrow> goint \<Rightarrow> 'm searched" where
  "receive [] acc filesOpened duration elapsed = Returned (Some acc) None filesOpened elapsed"
| "receive (r # rs) acc filesOpened duration elapsed =
     (case err r of
        Some e \<Rightarrow> Returned None (Some e) filesOpened duration
      | None \<Rightarrow>
          (case res r of
             None \<Rightarrow> Panicked
           | Some response \<Rightarrow>
               (case Matches response of
                  None \<Rightarrow> receive rs acc filesOpened duration elapsed
                | Some ms \<Rightarrow>
                    receive rs (acc(repo r \<mapsto> response))
                      (filesOpened + FilesOpened response) duration elapsed)))"

text \<open>
  \<open>searchAll\<close>, given the sequence \<open>ch\<close> of messages received: a rearrangement of the
  messages of the tasks, \<^term>\<open>mset ch = mset (tasks search repos)\<close>.
\<close>

definition searchAll :: "'m searchResponse list \<Rightarrow> goint \<Rightarrow> goint \<Rightarrow> goint \<Rightarrow> 'm searched" where
  "searchAll ch filesOpened duration elapsed = receive ch Map.empty filesOpened duration elapsed"


text \<open>
  For stating what the loop computes: what one message adds to the counter of opened files
  (nothing when its matches are nil), and whether its matches are not nil.
\<close>

definition counted :: "'m searchResponse \<Rightarrow> goint" where
  "counted r =
     (case res r of
        None \<Rightarrow> 0
      | Some response \<Rightarrow> (case Matches response of None \<Rightarrow> 0 | Some ms \<Rightarrow> FilesOpened response))"

definition hasMatches :: "'m searchResponse \<Rightarrow> bool" where
  "hasMatches r = (case res r of None \<Rightarrow> False | Some response \<Rightarrow> Matches response \<noteq> None)"


section \<open>The git driver (package vcs)\<close>

text \<open>
  The driver acts on the world outside the program (the working directories, the remote)
  only by running \<open>git\<close>. The world is a value of a type \<open>'w\<close>, and the two ways in which
  the driver runs a command are parameters: \<open>combinedOutput dir argv w\<close> is
  \<open>exec.Command(argv...).CombinedOutput()\<close> in directory \<open>dir\<close>, giving the output, the
  error (if any) and the world afterwards; \<open>piped dir argv w\<close> is a command run through a
  pipe of its standard output, as \<open>HeadRev\<close> does, with the error of each step. What
  \<open>log.Printf\<close> writes is collected in \<open>logs\<close>.
\<close>

record process =
  pipeErr :: "string option"
  startErr :: "string option"
  copyErr :: "string option"
  stdout :: string
  waitErr :: "string option"

record 'w os =
  combinedOutput :: "string \<Rightarrow> string list \<Rightarrow> 'w \<Rightarrow> (string \<times> string option) \<times> 'w"
  piped :: "string \<Rightarrow> string list \<Rightarrow> 'w \<Rightarrow> process \<times> 'w"

record 'w machine =
  world :: 'w
  logs :: "string list"

definition defaultRef :: string where
  "defaultRef = ''master''"

text \<open>
  The fields of \<open>GitDriver\<close> that the configuration sets. The field \<open>refDetetector\<close> is
  always the \<open>headBranchDetector\<close> that \<open>newGit\<close> installs, so \<open>detectRef\<close> below is called
  directly.
\<close>

record GitDriver =
  DetectRef :: bool
  Ref :: string
  Username :: string
  Password :: string

text \<open>
  \<open>HeadRev\<close>: each failing step returns the empty string with its error; otherwise the
  trimmed output together with whatever \<open>cmd.Wait()\<close> returns.
\<close>

definition HeadRev :: "'w os \<Rightarrow> GitDriver \<Rightarrow> string \<Rightarrow> 'w machine \<Rightarrow> (string \<times> string option) \<times> 'w machine" where
  "HeadRev sys g dir st =
     (let (p, w) = piped sys dir [''git'', ''rev-parse'', ''HEAD''] (world st);
          st' = st\<lparr>world := w\<rparr>
      in case pipeErr p of
           Some e \<Rightarrow> (([], Some e), st')
         | None \<Rightarrow>
             (case startErr p of
                Some e \<Rightarrow> (([], Some e), st')
              | None \<Rightarrow>
                  (case copyErr p of
                     Some e \<Rightarrow> (([], Some e), st')
                   | None \<Rightarrow> ((TrimSpace (stdout p), waitErr p), st'))))"

text \<open>
  \<open>run\<close>: a failure of the command is logged with its output, and the error returned is
  nil in every case.
\<close>

definition run ::
  "'w os \<Rightarrow> string \<Rightarrow> string \<Rightarrow> string \<Rightarrow> string list \<Rightarrow> 'w machine \<Rightarrow> (string \<times> string option) \<times> 'w machine" where
  "run sys desc dir cmd args st =
     (let ((out, e), w) = combinedOutput sys dir (cmd # args) (world st);
          st' = st\<lparr>world := w\<rparr>;
          st'' = (case e of
                    None \<Rightarrow> st'
                  | Some failure \<Rightarrow>
                      st'\<lparr>logs := logs st' @
                        [''Failed to '' @ desc @ '' '' @ dir @ '', see output below'' @ [CHR 0x0A] @
                         out @ ''Continuing...'']\<rparr>)
      in ((out, None), st''))"

text \<open>
  \<open>headBranchRegexp.FindStringSubmatch\<close> for the pattern \<open>HEAD branch: (?P<branch>.+)\<close>:
  the leftmost place where the thirteen bytes \<open>HEAD branch: \<close> are followed by at least
  one byte other than a line feed; the group is the longest run of such bytes. The result
  is the second element of the slice of matches, or \<^term>\<open>None\<close> when the slice is nil.
\<close>

fun FindHeadBranch :: "string \<Rightarrow> string option" where
  "FindHeadBranch [] = None"
| "FindHeadBranch (c # cs) =
     (if take 13 (c # cs) = ''HEAD branch: '' \<and>
         takeWhile (\<lambda>x. x \<noteq> CHR 0x0A) (drop 13 (c # cs)) \<noteq> []
      then Some (takeWhile (\<lambda>x. x \<noteq> CHR 0x0A) (drop 13 (c # cs)))
      else FindHeadBranch cs)"

definition detectRef :: "'w os \<Rightarrow> string \<Rightarrow> 'w machine \<Rightarrow> string \<times> 'w machine" where
  "detectRef sys dir st =
     (let ((output, e), st') =
            run sys ''git show remote info'' dir ''git'' [''remote'', ''show'', ''origin''] st
      in case e of
           Some failure \<Rightarrow>
             ([], st'\<lparr>logs := logs st' @
                [''error occured when fetching info to determine target ref in '' @ dir @ '': '' @
                 failure @ ''. Will fall back to default ref '' @ defaultRef]\<rparr>)
         | None \<Rightarrow>
             (case FindHeadBranch output of
                None \<Rightarrow>
                  ([], st'\<lparr>logs := logs st' @
                     [''could not determine target ref in '' @ dir @
                      ''. Will fall back to default ref '' @ defaultRef]\<rparr>)
              | Some branch \<Rightarrow> (branch, st')))"

definition targetRef :: "'w os \<Rightarrow> GitDriver \<Rightarrow> string \<Rightarrow> 'w machine \<Rightarrow> string \<times> 'w machine" where
  "targetRef sys g dir st =
     (let (t, st') =
            (if Ref g \<noteq> [] then (Ref g, st)
             else if DetectRef g then detectRef sys dir st
             else ([], st))
      in (if t = [] then defaultRef else t, st'))"

definition fetchArgs :: "string \<Rightarrow> string list" where
  "fetchArgs t =
     [''fetch'', ''--prune'', ''--no-tags'', ''--depth'', ''1'', ''origin'',
      ''+'' @ t @ '':remotes/origin/'' @ t]"

definition resetArgs :: "string \<Rightarrow> string list" where
  "resetArgs t = [''reset'', ''--hard'', ''origin/'' @ t]"

text \<open>\<open>Pull\<close>, with its two tests of the error that \<open>run\<close> returns.\<close>

definition Pull :: "'w os \<Rightarrow> GitDriver \<Rightarrow> string \<Rightarrow> 'w machine \<Rightarrow> (string \<times> string option) \<times> 'w machine" where
  "Pull sys g dir st =
     (let (t, st1) = targetRef sys g dir st;
          ((out1, e1), st2) = run sys ''git fetch'' dir ''git'' (fetchArgs t) st1
      in case e1 of
           Some e \<Rightarrow> (([], Some e), st2)
         | None \<Rightarrow>
             (let ((out2, e2), st3) = run sys ''git reset'' dir ''git'' (resetArgs t) st2
              in case e2 of
                   Some e \<Rightarrow> (([], Some e), st3)
                 | None \<Rightarrow> HeadRev sys g dir st3))"


section \<open>Merging the VCS configurations (package config)\<close>

text \<open>
  The fields of \<open>Config\<close> that \<open>initConfig\<close> and \<open>mergeVCSConfigs\<close> use (the GitLab fields
  play no part in the merge). As for the registry, a Go map is the list of its entries in
  the order in which \<open>range\<close> visits them. A value of \<open>VCSConfigMessages\<close> is a pointer
  and may be nil; the repositories have been through \<open>initRepo\<close> and are not nil.
\<close>

record Config =
  DbPath :: string
  Title :: string
  Repos :: "(string \<times> Repo) list"
  MaxConcurrentIndexers :: int
  HealthCheckURI :: string
  VCSConfigMessages :: "(string \<times> SecretMessage option) list"

text \<open>
  A decoded JSON object, a Go \<open>map[string]interface{}\<close>, is the list of its entries, read
  by \<^const>\<open>map_of\<close>; the nil map is \<^term>\<open>None\<close>. The type \<open>'v\<close> is that of the
  decoded values. \<open>setKey\<close> is the assignment \<open>m[name] = val\<close>.
\<close>

type_synonym 'v object = "(string \<times> 'v) list"

fun setKey :: "string \<Rightarrow> 'v \<Rightarrow> 'v object \<Rightarrow> 'v object" where
  "setKey name val [] = [(name, val)]"
| "setKey name val ((k, v) # m) = (if k = name then (name, val) # m else (k, v) # setKey name val m)"

text \<open>
  \<open>encoding/json\<close> is a parameter of the merge. \<open>Unmarshal js b\<close> decodes into a variable
  of type \<open>map[string]interface{}\<close> that is nil before the call: an error, or the decoded
  object, or \<^term>\<open>None\<close> when the map is still nil afterwards (the blob is the JSON
  \<open>null\<close>). \<open>Marshal js m\<close> encodes a map, nil or not.
\<close>

record 'v json =
  Unmarshal :: "string \<Rightarrow> string + 'v object option"
  Marshal :: "'v object option \<Rightarrow> string + string"

datatype 'a outcome = Panic | Done 'a

text \<open>\<open>Repo.VcsConfig\<close>: nil when the repository declares no blob.\<close>

definition VcsConfig :: "Repo \<Rightarrow> string option" where
  "VcsConfig r = (case VcsConfigMessage r of None \<Rightarrow> None | Some message \<Rightarrow> Some message)"

text \<open>
  The first loop of \<open>mergeVCSConfigs\<close>: the global blobs are decoded into
  \<open>globalConfigVals\<close>; a nil pointer is dereferenced, and the first blob that does not
  decode ends the function with its error.
\<close>

fun decodeGlobals ::
  "'v json \<Rightarrow> (string \<times> SecretMessage option) list \<Rightarrow> (string \<rightharpoonup> 'v object option) \<Rightarrow>
   (string + (string \<rightharpoonup> 'v object option)) outcome" where
  "decodeGlobals js [] globalConfigVals = Done (Inr globalConfigVals)"
| "decodeGlobals js ((vcs, configBytes) # entries) globalConfigVals =
     (case configBytes of
        None \<Rightarrow> Panic
      | Some b \<Rightarrow>
          (case Unmarshal js b of
             Inl e \<Rightarrow> Done (Inl e)
           | Inr configVals \<Rightarrow> decodeGlobals js entries (globalConfigVals(vcs \<mapsto> configVals))))"

text \<open>
  The decoded blob of one repository: a fresh empty map when the blob has length 0,
  otherwise what \<open>Unmarshal\<close> leaves in the nil map \<open>repoVals\<close>.
\<close>

definition repoVals :: "'v json \<Rightarrow> Repo \<Rightarrow> string + 'v object option" where
  "repoVals js r =
     (case VcsConfig r of
        None \<Rightarrow> Inr (Some [])
      | Some repoBytes \<Rightarrow>
          if length repoBytes = 0 then Inr (Some [])
          else (case Unmarshal js repoBytes of
                  Inl e \<Rightarrow> Inl e
                | Inr decoded \<Rightarrow> Inr decoded))"

text \<open>
  The inner loop \<open>for name, val := range globalVals\<close>: a name that \<open>repoVals\<close> lacks is
  assigned; assigning into a nil map panics.
\<close>

fun fillMissing :: "'v object \<Rightarrow> 'v object option \<Rightarrow> 'v object option outcome" where
  "fillMissing [] vals = Done vals"
| "fillMissing ((name, val) # entries) vals =
     (case vals of
        None \<Rightarrow> Panic
      | Some m \<Rightarrow>
          (case map_of m name of
             Some present \<Rightarrow> fillMissing entries (Some m)
           | None \<Rightarrow> fillMissing entries (Some (setKey name val m))))"

text \<open>The body of the second loop for a repository whose VCS kind has global values.\<close>

definition mergeRepo :: "'v json \<Rightarrow> 'v object option \<Rightarrow> Repo \<Rightarrow> (string + Repo) outcome" where
  "mergeRepo js globalVals r =
     (case repoVals js r of
        Inl e \<Rightarrow> Done (Inl e)
      | Inr vals \<Rightarrow>
          (case fillMissing (case globalVals of None \<Rightarrow> [] | Some entries \<Rightarrow> entries) vals of
             Panic \<Rightarrow> Panic
           | Done merged \<Rightarrow>
               (case Marshal js merged of
                  Inl e \<Rightarrow> Done (Inl e)
                | Inr repoBytes \<Rightarrow> Done (Inr (r\<lparr>VcsConfigMessage := Some repoBytes\<rparr>)))))"

text \<open>
  The second loop, over the repositories: one whose VCS kind has no global values is left
  as it is; an error ends the function with the repositories visited so far already
  rewritten.
\<close>

fun mergeRepos ::
  "'v json \<Rightarrow> (string \<rightharpoonup> 'v object option) \<Rightarrow> (string \<times> Repo) list \<Rightarrow>
   (string option \<times> (string \<times> Repo) list) outcome" where
  "mergeRepos js globalConfigVals [] = Done (None, [])"
| "mergeRepos js globalConfigVals ((name, r) # entries) =
     (case globalConfigVals (Vcs r) of
        None \<Rightarrow>
          (case mergeRepos js globalConfigVals entries of
             Panic \<Rightarrow> Panic
           | Done (e, entries') \<Rightarrow> Done (e, (name, r) # entries'))
      | Some globalVals \<Rightarrow>
          (case mergeRepo js globalVals r of
             Panic \<Rightarrow> Panic
           | Done (Inl e) \<Rightarrow> Done (Some e, (name, r) # entries)
           | Done (Inr r') \<Rightarrow>
               (case mergeRepos js globalConfigVals entries of
                  Panic \<Rightarrow> Panic
                | Done (e, entries') \<Rightarrow> Done (e, (name, r') # entries'))))"

definition mergeVCSConfigs :: "'v json \<Rightarrow> Config \<Rightarrow> (string option \<times> Config) outcome" where
  "mergeVCSConfigs js cfg =
     (if length (VCSConfigMessages cfg) = 0 then Done (None, cfg)
      else (case decodeGlobals js (VCSConfigMessages cfg) Map.empty of
              Panic \<Rightarrow> Panic
            | Done (Inl e) \<Rightarrow> Done (Some e, cfg)
            | Done (Inr globalConfigVals) \<Rightarrow>
                (case mergeRepos js globalConfigVals (Repos cfg) of
                   Panic \<Rightarrow> Panic
                 | Done (e, repos') \<Rightarrow> Done (e, cfg\<lparr>Repos := repos'\<rparr>))))"


section \<open>encoding/json on objects of whole numbers\<close>

text \<open>
  What \<open>encoding/json\<close> does with the blobs of one shape: an object without white space
  whose keys are made of letters, digits, \<open>_\<close> and \<open>-\<close> and whose values are unsigned
  whole-number literals, such as \<open>{"depth":5,"timeout":30}\<close>. Any other blob, and any
  map that does not encode to such a blob, is outside this model and is answered with the
  error \<open>outside the model\<close>, which says nothing about the library.

  Into an \<open>interface{}\<close> the library decodes a number as a \<open>float64\<close>: the literal is
  rounded to the nearest number with 53 significant bits, a tie going to the even one. A
  decoded value is therefore a whole number, kept here as a \<^typ>\<open>nat\<close>.
\<close>

fun bitlen :: "nat \<Rightarrow> nat" where
  "bitlen n = (if n = 0 then 0 else Suc (bitlen (n div 2)))"

declare bitlen.simps [simp del]

definition round64 :: "nat \<Rightarrow> nat" where
  "round64 n =
     (if bitlen n \<le> 53 then n
      else (let e = bitlen n - 53; q = n div 2 ^ e; r = n mod 2 ^ e; half = 2 ^ (e - 1)
            in if r > half \<or> (r = half \<and> odd q) then (q + 1) * 2 ^ e else q * 2 ^ e))"

definition plainByte :: "char \<Rightarrow> bool" where
  "plainByte c =
     (let n = (of_char c :: nat)
      in (48 \<le> n \<and> n \<le> 57) \<or> (65 \<le> n \<and> n \<le> 90) \<or> (97 \<le> n \<and> n \<le> 122) \<or> n = 95 \<or> n = 45)"

fun decimalValue :: "nat \<Rightarrow> string \<Rightarrow> nat option" where
  "decimalValue n [] = Some n"
| "decimalValue n (c # cs) =
     (case digitVal c of None \<Rightarrow> None | Some d \<Rightarrow> decimalValue (n * 10 + d) cs)"

text \<open>
  A number literal of the shape: digits, with no leading zero unless it is \<open>0\<close> itself;
  a value that rounds beyond the largest \<open>float64\<close> is an error of the library.
\<close>

definition numberValue :: "string \<Rightarrow> nat option" where
  "numberValue s =
     (if s = [] \<or> (length s > 1 \<and> hd s = CHR ''0'') then None
      else (case decimalValue 0 s of
              None \<Rightarrow> None
            | Some n \<Rightarrow> if round64 n < 2 ^ 1024 then Some (round64 n) else None))"

definition quoted :: "string \<Rightarrow> string" where
  "quoted s = CHR 0x22 # s @ [CHR 0x22]"

text \<open>One member \<open>"key":number\<close>.\<close>

definition parseMember :: "string \<Rightarrow> (string \<times> nat) option" where
  "parseMember s =
     (case s of
        [] \<Rightarrow> None
      | c # rest \<Rightarrow>
          if c \<noteq> CHR 0x22 then None
          else (let key = takeWhile plainByte rest
                in (case dropWhile plainByte rest of
                      q # colon # number \<Rightarrow>
                        if q = CHR 0x22 \<and> colon = CHR '':'' then
                          (case numberValue number of
                             None \<Rightarrow> None
                           | Some v \<Rightarrow> Some (key, v))
                        else None
                    | _ \<Rightarrow> None)))"

text \<open>
  Decoding: \<open>null\<close> leaves the map nil; in an object, a later member replaces an earlier
  one with the same key.
\<close>

definition unmarshal64 :: "string \<Rightarrow> string + nat object option" where
  "unmarshal64 b =
     (if b = ''null'' then Inr None
      else if b = ''{}'' then Inr (Some [])
      else (case b of
              [] \<Rightarrow> Inl ''outside the model''
            | c # rest \<Rightarrow>
                if c = CHR ''{'' \<and> rest \<noteq> [] \<and> last rest = CHR ''}'' then
                  (case those (map parseMember (Split (butlast rest) (CHR '',''))) of
                     None \<Rightarrow> Inl ''outside the model''
                   | Some members \<Rightarrow> Inr (Some (fold (\<lambda>(k, v). setKey k v) members [])))
                else Inl ''outside the model''))"

text \<open>
  Encoding: the nil map is \<open>null\<close>; the members of a map are written in the order of
  their keys, compared byte by byte. A whole number up to \<open>2 ^ 53\<close> is a \<open>float64\<close> whose
  shortest decimal form is its own digits.
\<close>

definition digitChar :: "nat \<Rightarrow> char" where
  "digitChar d = ''0123456789'' ! d"

fun showNat :: "nat \<Rightarrow> string" where
  "showNat n =
     (if n < 10 then [digitChar n] else showNat (n div 10) @ [digitChar (n mod 10)])"

declare showNat.simps [simp del]

fun bytesLeq :: "string \<Rightarrow> string \<Rightarrow> bool" where
  "bytesLeq [] ys = True"
| "bytesLeq (x # xs) [] = False"
| "bytesLeq (x # xs) (y # ys) =
     ((of_char x :: nat) < of_char y \<or> (x = y \<and> bytesLeq xs ys))"

fun insertMember :: "string \<times> nat \<Rightarrow> nat object \<Rightarrow> nat object" where
  "insertMember e [] = [e]"
| "insertMember e (e' # es) =
     (if bytesLeq (fst e) (fst e') then e # e' # es else e' # insertMember e es)"

definition sortMembers :: "nat object \<Rightarrow> nat object" where
  "sortMembers es = foldr insertMember es []"

fun joinMembers :: "string list \<Rightarrow> string" where
  "joinMembers [] = []"
| "joinMembers [m] = m"
| "joinMembers (m # m' # ms) = m @ '','' @ joinMembers (m' # ms)"

definition marshal64 :: "nat object option \<Rightarrow> string + string" where
  "marshal64 m =
     (case m of
        None \<Rightarrow> Inr ''null''
      | Some es \<Rightarrow>
          if distinct (map fst es) \<and> list_all (\<lambda>e. list_all plainByte (fst e) \<and> snd e \<le> 2 ^ 53) es
          then Inr (''{'' @ joinMembers (map (\<lambda>e. quoted (fst e) @ '':'' @ showNat (snd e))
                                          (sortMembers es)) @ ''}'')
          else Inl ''outside the model'')"

definition json64 :: "nat json" where
  "json64 = \<lparr>Unmarshal = unmarshal64, Marshal = marshal64\<rparr>"

text \<open>
  Two configurations for concrete runs, each with one git repository, one repository of
  another kind and a default for git: the example \<open>{"depth":1}\<close> under the default
  \<open>{"depth":5,"timeout":30}\<close>, and \<open>{"depth":9007199254740993}\<close> under the default
  \<open>{"timeout":30}\<close>.
\<close>

definition exampleConfig :: Config where
  "exampleConfig =
     \<lparr>DbPath = ''data'', Title = ''Hound'',
      Repos = [(''svc'', emptyRepo\<lparr>Vcs := ''git'',
                  VcsConfigMessage := Some (''{'' @ quoted ''depth'' @ '':1}'')\<rparr>),
               (''docs'', emptyRepo\<lparr>Vcs := ''hg''\<rparr>)],
      MaxConcurrentIndexers = 2, HealthCheckURI = ''/healthz'',
      VCSConfigMessages =
        [(''git'', Some (''{'' @ quoted ''depth'' @ '':5,'' @ quoted ''timeout'' @ '':30}''))]\<rparr>"

definition bigNumberConfig :: Config where
  "bigNumberConfig =
     \<lparr>DbPath = ''data'', Title = ''Hound'',
      Repos = [(''svc'', emptyRepo\<lparr>Vcs := ''git'',
                  VcsConfigMessage := Some (''{'' @ quoted ''depth'' @ '':9007199254740993}'')\<rparr>),
               (''docs'', emptyRepo\<lparr>Vcs := ''hg''\<rparr>)],
      MaxConcurrentIndexers = 2, HealthCheckURI = ''/healthz'',
      VCSConfigMessages = [(''git'', Some (''{'' @ quoted ''timeout'' @ '':30}''))]\<rparr>"


section \<open>Properties of access control\<close>

lemma iterateCompare_mem: "iterateCompare xs v \<longleftrightarrow> v \<in> set xs"
  by (induction xs) auto

text \<open>
  C1. \<open>CheckAccess\<close> decides in this order: with an access-key list present the caller
  is authorized exactly when the key is a member of the list (string equality, so
  case-sensitive), whatever the OAuth marker and the authorized URLs are; otherwise, with
  the OAuth marker present (whatever its boolean value) exactly when the repository's URL
  is among the authorized URLs; otherwise always.
\<close>

theorem CheckAccess_policy:
  "(AccessKeys r = Some keys \<longrightarrow>
      CheckAccess r accessKey urls = (accessKey \<in> set keys) \<and>
      CheckAccess (r\<lparr>OAuthAuthorization := marker'\<rparr>) accessKey urls' = CheckAccess r accessKey urls) \<and>
   (AccessKeys r = None \<and> OAuthAuthorization r = Some marker \<longrightarrow>
      CheckAccess r accessKey urls = (Url r \<in> set urls) \<and>
      CheckAccess (r\<lparr>OAuthAuthorization := Some (\<not> marker)\<rparr>) accessKey urls = CheckAccess r accessKey urls) \<and>
   (AccessKeys r = None \<and> OAuthAuthorization r = None \<longrightarrow> CheckAccess r accessKey urls)"
  by (simp add: CheckAccess_def iterateCompare_mem)

theorem CheckAccess_policy_witness:
  "CheckAccess (emptyRepo\<lparr>AccessKeys := Some [''k1'', ''k2'']\<rparr>) ''k1'' [] \<and>
   \<not> CheckAccess (emptyRepo\<lparr>AccessKeys := Some [''k1'', ''k2'']\<rparr>) ''K1'' [] \<and>
   \<not> CheckAccess (emptyRepo\<lparr>AccessKeys := Some [''k1'', ''k2''], OAuthAuthorization := Some True,
        Url := ''u''\<rparr>) ''bogus'' [''u''] \<and>
   CheckAccess (emptyRepo\<lparr>OAuthAuthorization := Some False, Url := ''u''\<rparr>) ''any'' [''u''] \<and>
   \<not> CheckAccess (emptyRepo\<lparr>OAuthAuthorization := Some True, Url := ''u''\<rparr>) ''any'' [] \<and>
   CheckAccess emptyRepo ''any'' []"
  using CheckAccess_policy [of "emptyRepo\<lparr>AccessKeys := Some [''k1'', ''k2'']\<rparr>" "[''k1'', ''k2'']" "''k1''" "[]"]
    CheckAccess_policy [of "emptyRepo\<lparr>AccessKeys := Some [''k1'', ''k2'']\<rparr>" "[''k1'', ''k2'']" "''K1''" "[]"]
    CheckAccess_policy [of "emptyRepo\<lparr>AccessKeys := Some [''k1'', ''k2''], OAuthAuthorization := Some True,
        Url := ''u''\<rparr>" "[''k1'', ''k2'']" "''bogus''" "[''u'']"]
    CheckAccess_policy [of "emptyRepo\<lparr>OAuthAuthorization := Some False, Url := ''u''\<rparr>" _ "''any''" "[''u'']" _ _ False]
    CheckAccess_policy [of "emptyRepo\<lparr>OAuthAuthorization := Some True, Url := ''u''\<rparr>" _ "''any''" "[]" _ _ True]
    CheckAccess_policy [of emptyRepo _ "''any''" "[]"]
  by (simp add: emptyRepo_def)


section \<open>Update switches\<close>

text \<open>
  C10. With the enable-push-updates field absent \<open>PushUpdatesEnabled\<close> is false, with the
  enable-poll-updates field absent \<open>PollUpdatesEnabled\<close> is true, and a field that is set
  is returned as it is.
\<close>

theorem update_switch_defaults:
  "(EnablePushUpdates r = None \<longrightarrow> \<not> PushUpdatesEnabled r) \<and>
   (EnablePollUpdates r = None \<longrightarrow> PollUpdatesEnabled r) \<and>
   (EnablePushUpdates r = Some b \<longrightarrow> PushUpdatesEnabled r = b) \<and>
   (EnablePollUpdates r = Some c \<longrightarrow> PollUpdatesEnabled r = c)"
  by (simp add: PushUpdatesEnabled_def PollUpdatesEnabled_def defaultPushEnabled_def
      defaultPollEnabled_def)

theorem update_switch_defaults_witness:
  "\<not> PushUpdatesEnabled emptyRepo \<and> PollUpdatesEnabled emptyRepo \<and>
   PushUpdatesEnabled (emptyRepo\<lparr>EnablePushUpdates := Some True\<rparr>) \<and>
   \<not> PollUpdatesEnabled (emptyRepo\<lparr>EnablePollUpdates := Some False\<rparr>)"
  using update_switch_defaults [of emptyRepo]
    update_switch_defaults [of "emptyRepo\<lparr>EnablePushUpdates := Some True\<rparr>" True]
    update_switch_defaults [of "emptyRepo\<lparr>EnablePollUpdates := Some False\<rparr>" _ False]
  by (simp add: emptyRepo_def)


section \<open>Properties of the context-lines parameter\<close>

text \<open>
  C9. The search handler reads the \<open>ctx\<close> parameter with bounds 0 and 20 and default 2:
  the result is never above 20, it is 2 whenever \<open>ParseUint\<close> fails, and a parsed value
  \<open>v\<close> gives \<open>min v 20\<close>; so \<open>"100"\<close> gives 20, \<open>"abc"\<close> gives 2 and \<open>"0"\<close> gives 0.
\<close>

theorem LinesOfContext_clamped:
  "LinesOfContext sv \<le> 20 \<and>
   (\<forall>e. ParseUint sv 54 = Inl e \<longrightarrow> LinesOfContext sv = 2) \<and>
   (\<forall>v. ParseUint sv 54 = Inr v \<longrightarrow> LinesOfContext sv = min v 20)"
  by (cases "ParseUint sv 54")
     (simp_all add: LinesOfContext_def parseAsUintValue_def maxLinesOfContext_def
        defaultLinesOfContext_def)

theorem LinesOfContext_clamped_witness:
  "ParseUint ''100'' 54 = Inr 100 \<and> LinesOfContext ''100'' = 20 \<and>
   ParseUint ''abc'' 54 = Inl ErrSyntax \<and> LinesOfContext ''abc'' = 2 \<and>
   ParseUint ''0'' 54 = Inr 0 \<and> LinesOfContext ''0'' = 0 \<and>
   ParseUint ''18014398509481984'' 54 = Inl ErrRange \<and> LinesOfContext ''18014398509481984'' = 2"
proof -
  have a: "ParseUint ''100'' 54 = Inr 100"
    by (simp add: ParseUint_def digitVal_def cutoff_def)
  have b: "ParseUint ''abc'' 54 = Inl ErrSyntax"
    by (simp add: ParseUint_def digitVal_def)
  have c: "ParseUint ''0'' 54 = Inr 0"
    by (simp add: ParseUint_def digitVal_def cutoff_def)
  have d: "ParseUint ''18014398509481984'' 54 = Inl ErrRange"
    by (simp add: ParseUint_def digitVal_def cutoff_def)
  show ?thesis
    using a b c d LinesOfContext_clamped [of "''100''"] LinesOfContext_clamped [of "''abc''"]
      LinesOfContext_clamped [of "''0''"] LinesOfContext_clamped [of "''18014398509481984''"]
    by simp
qed


section \<open>Properties of resolving the requested repositories\<close>

lemma allRepos_filter:
  "allRepos idx k a = map fst (filter (\<lambda>e. CheckAccess (Repo (snd e)) k a) idx)"
  by (induction idx k a rule: allRepos.induct) auto

lemma allRepos_set:
  assumes "distinct (map fst idx)"
  shows "set (allRepos idx k a) = {n. \<exists>s. map_of idx n = Some s \<and> CheckAccess (Repo s) k a}"
proof -
  have "set (allRepos idx k a) = {n. \<exists>s. (n, s) \<in> set idx \<and> CheckAccess (Repo s) k a}"
    unfolding allRepos_filter by force
  also have "\<dots> = {n. \<exists>s. map_of idx n = Some s \<and> CheckAccess (Repo s) k a}"
    using assms by (auto dest: map_of_SomeD)
  finally show ?thesis .
qed

lemma allRepos_distinct: "distinct (map fst idx) \<Longrightarrow> distinct (allRepos idx k a)"
  unfolding allRepos_filter by (simp add: distinct_map_filter)

lemma allRepos_known: "n \<in> set (allRepos idx k a) \<Longrightarrow> map_of idx n \<noteq> None"
proof -
  assume "n \<in> set (allRepos idx k a)"
  then have "n \<in> fst ` set idx"
    unfolding allRepos_filter by auto
  then show ?thesis
    by (simp add: map_of_eq_None_iff)
qed

lemma namedRepos_filter:
  "namedRepos idx names k a =
     filter (\<lambda>n. \<exists>s. map_of idx n = Some s \<and> CheckAccess (Repo s) k a) names"
  by (induction names) (auto split: option.splits)

lemma namedRepos_known: "n \<in> set (namedRepos idx names k a) \<Longrightarrow> map_of idx n \<noteq> None"
  by (auto simp: namedRepos_filter)

lemma TrimSpace_star: "TrimSpace ''*'' = ''*''"
  by (simp add: TrimSpace_def spaceRunes_def)

text \<open>
  C7. For the wildcard \<open>"*"\<close> (also with white space around it) \<open>parseAsRepoList\<close> returns
  exactly the names of the registry whose \<open>CheckAccess\<close> passes, each once; for any other
  value it returns, in the order of the comma-separated list, exactly the listed names
  that the registry knows and whose \<open>CheckAccess\<close> passes. An unknown name is left out and
  nothing reports it: the result is a plain list of names.
\<close>

theorem parseAsRepoList_resolves:
  "distinct (map fst idx) \<Longrightarrow>
   set (parseAsRepoList ''*'' idx k a) =
     {n. \<exists>s. map_of idx n = Some s \<and> CheckAccess (Repo s) k a} \<and>
   distinct (parseAsRepoList ''*'' idx k a) \<and>
   (TrimSpace v = ''*'' \<longrightarrow> parseAsRepoList v idx k a = parseAsRepoList ''*'' idx k a) \<and>
   (TrimSpace v \<noteq> ''*'' \<longrightarrow>
      parseAsRepoList v idx k a =
        filter (\<lambda>n. \<exists>s. map_of idx n = Some s \<and> CheckAccess (Repo s) k a)
          (Split (TrimSpace v) (CHR '','')))"
  by (simp add: parseAsRepoList_def TrimSpace_star allRepos_set allRepos_distinct
      namedRepos_filter Let_def)

theorem parseAsRepoList_resolves_witness:
  "distinct (map fst
     [(''foo'', \<lparr>Repo = emptyRepo\<rparr>),
      (''bar'', \<lparr>Repo = emptyRepo\<lparr>AccessKeys := Some [''k1'']\<rparr>\<rparr>),
      (''baz'', \<lparr>Repo = emptyRepo\<lparr>AccessKeys := Some [''k2'']\<rparr>\<rparr>)]) \<and>
   set (parseAsRepoList ''*''
     [(''foo'', \<lparr>Repo = emptyRepo\<rparr>),
      (''bar'', \<lparr>Repo = emptyRepo\<lparr>AccessKeys := Some [''k1'']\<rparr>\<rparr>),
      (''baz'', \<lparr>Repo = emptyRepo\<lparr>AccessKeys := Some [''k2'']\<rparr>\<rparr>)] ''k1'' []) = {''foo'', ''bar''} \<and>
   TrimSpace ''foo,bar,nonexistent,baz'' \<noteq> ''*'' \<and>
   parseAsRepoList ''foo,bar,nonexistent,baz''
     [(''foo'', \<lparr>Repo = emptyRepo\<rparr>),
      (''bar'', \<lparr>Repo = emptyRepo\<lparr>AccessKeys := Some [''k1'']\<rparr>\<rparr>),
      (''baz'', \<lparr>Repo = emptyRepo\<lparr>AccessKeys := Some [''k2'']\<rparr>\<rparr>)] ''k1'' [] = [''foo'', ''bar'']"
  using parseAsRepoList_resolves [of
      "[(''foo'', \<lparr>Repo = emptyRepo\<rparr>),
        (''bar'', \<lparr>Repo = emptyRepo\<lparr>AccessKeys := Some [''k1'']\<rparr>\<rparr>),
        (''baz'', \<lparr>Repo = emptyRepo\<lparr>AccessKeys := Some [''k2'']\<rparr>\<rparr>)]"
      "''k1''" "[]" "''foo,bar,nonexistent,baz''"]
  by (simp add: parseAsRepoList_def TrimSpace_def spaceRunes_def emptyRepo_def CheckAccess_def)


section \<open>Properties of the update handler\<close>

lemma updateRepos_known:
  "\<forall>n\<in>set names. map_of idx n \<noteq> None \<Longrightarrow> fst (updateRepos idx names t) \<noteq> Response 404 p"
  by (induction names arbitrary: t) (auto simp: writeResp_def writeError_def split: option.splits)

text \<open>
  The not-found branch of the update handler is never taken: every name that
  \<open>parseAsRepoList\<close> returns is a name of the registry.
\<close>

lemma updateHandler_never_404: "fst (updateHandler m v idx k a) \<noteq> Response 404 p"
proof -
  have "\<forall>n\<in>set (parseAsRepoList v idx k a). map_of idx n \<noteq> None"
    by (auto simp: parseAsRepoList_def Let_def dest: allRepos_known namedRepos_known)
  then show ?thesis
    by (simp add: updateHandler_def updateRepos_known writeError_def)
qed

lemma updateRepos_ok:
  "fst (updateRepos idx names t) = writeResp ''ok'' \<longleftrightarrow>
     (\<forall>n\<in>set names. \<exists>s. map_of idx n = Some s \<and> Update s)"
  by (induction names arbitrary: t) (auto simp: writeResp_def writeError_def split: option.splits)

text \<open>
  C4. A POST to \<open>/api/v1/update\<close> that names only a repository the registry does not know
  is answered with status 200 and \<open>"ok"\<close>, not with a not-found error: the name was
  dropped by \<open>parseAsRepoList\<close> before the handler's own test for an unknown name.
\<close>

theorem updateHandler_unknown_repository_ok:
  "updateHandler ''POST'' ''nonexistent''
     [(''foo'', \<lparr>Repo = emptyRepo\<lparr>EnablePushUpdates := Some True\<rparr>\<rparr>)] [] [] =
   (Response 200 (JsonData ''ok''), [])"
  by (simp add: updateHandler_def parseAsRepoList_def TrimSpace_def spaceRunes_def writeResp_def)


section \<open>Properties of the search fan-out\<close>

lemma receive_error:
  assumes "\<forall>p\<in>set pre. err p = None \<and> res p \<noteq> None" and "err r = Some e"
  shows "receive (pre @ r # post) acc f d el =
           Returned None (Some e) (f + sum_list (map counted pre)) d"
  using assms
proof (induction pre arbitrary: acc f)
  case Nil
  then show ?case by simp
next
  case (Cons p pre)
  then obtain response where rp: "res p = Some response" and ep: "err p = None"
    by auto
  show ?case
  proof (cases "Matches response")
    case None
    then show ?thesis using Cons rp ep by (simp add: counted_def)
  next
    case (Some ms)
    then show ?thesis using Cons rp ep by (simp add: counted_def add.assoc)
  qed
qed

lemma receive_success:
  assumes "\<forall>r\<in>set rs. err r = None \<and> res r \<noteq> None"
  shows "\<exists>m. receive rs acc f d el = Returned (Some m) None (f + sum_list (map counted rs)) el \<and>
           dom m = dom acc \<union> repo ` {r \<in> set rs. hasMatches r} \<and>
           (\<forall>n response. m n = Some response \<longrightarrow>
              acc n = Some response \<or> (\<exists>r\<in>set rs. repo r = n \<and> res r = Some response))"
  using assms
proof (induction rs arbitrary: acc f)
  case Nil
  then show ?case by simp
next
  case (Cons r rs)
  then obtain response where rp: "res r = Some response" and ep: "err r = None"
    by auto
  have rest: "\<forall>r\<in>set rs. err r = None \<and> res r \<noteq> None" using Cons.prems by simp
  show ?case
  proof (cases "Matches response")
    case None
    from Cons.IH[OF rest, of acc f] obtain m where
      m: "receive rs acc f d el = Returned (Some m) None (f + sum_list (map counted rs)) el"
         "dom m = dom acc \<union> repo ` {r \<in> set rs. hasMatches r}"
         "\<forall>n response. m n = Some response \<longrightarrow>
              acc n = Some response \<or> (\<exists>r\<in>set rs. repo r = n \<and> res r = Some response)"
      by blast
    have "receive (r # rs) acc f d el = Returned (Some m) None (f + sum_list (map counted (r # rs))) el"
      using m(1) rp ep None by (simp add: counted_def)
    moreover have "dom m = dom acc \<union> repo ` {x \<in> set (r # rs). hasMatches x}"
      using m(2) rp None by (auto simp: hasMatches_def)
    moreover have "\<forall>n response. m n = Some response \<longrightarrow>
              acc n = Some response \<or> (\<exists>x\<in>set (r # rs). repo x = n \<and> res x = Some response)"
      using m(3) by auto
    ultimately show ?thesis by blast
  next
    case (Some ms)
    let ?acc = "acc(repo r \<mapsto> response)"
    from Cons.IH[OF rest, of ?acc "f + FilesOpened response"] obtain m where
      m: "receive rs ?acc (f + FilesOpened response) d el =
            Returned (Some m) None (f + FilesOpened response + sum_list (map counted rs)) el"
         "dom m = dom ?acc \<union> repo ` {r \<in> set rs. hasMatches r}"
         "\<forall>n response. m n = Some response \<longrightarrow>
              ?acc n = Some response \<or> (\<exists>r\<in>set rs. repo r = n \<and> res r = Some response)"
      by blast
    have "receive (r # rs) acc f d el = Returned (Some m) None (f + sum_list (map counted (r # rs))) el"
      using m(1) rp ep Some by (simp add: counted_def add.assoc)
    moreover have "dom m = dom acc \<union> repo ` {x \<in> set (r # rs). hasMatches x}"
      using m(2) rp Some by (auto simp: hasMatches_def)
    moreover have "\<forall>n response. m n = Some response \<longrightarrow>
              acc n = Some response \<or> (\<exists>x\<in>set (r # rs). repo x = n \<and> res x = Some response)"
      using m(3) rp by (auto split: if_splits)
    ultimately show ?thesis by blast
  qed
qed

lemma sum_list_mset_cong:
  fixes g :: "'a \<Rightarrow> goint"
  assumes "mset xs = mset ys"
  shows "sum_list (map g xs) = sum_list (map g ys)"
proof -
  have "sum_list (map g xs) = sum_mset (image_mset g (mset xs))"
    by (simp add: sum_mset_sum_list flip: mset_map)
  also have "\<dots> = sum_mset (image_mset g (mset ys))" using assms by simp
  also have "\<dots> = sum_list (map g ys)"
    by (simp add: sum_mset_sum_list flip: mset_map)
  finally show ?thesis .
qed


lemma task_message:
  assumes "mset ch = mset (tasks search repos)" and "r \<in> set ch"
  shows "\<exists>name\<in>set repos. repo r = name \<and> res r = fst (search name) \<and> err r = snd (search name)"
proof -
  have "r \<in> set (tasks search repos)"
    using assms mset_eq_setD by blast
  then show ?thesis
    by (auto simp: tasks_def)
qed

text \<open>
  C2. Let \<open>ch\<close> be the messages of the search tasks of \<open>repos\<close> in their order of
  completion, where a search that reports no error returns a response. If some task
  reports an error, \<open>searchAll\<close> returns the error of the first message in \<open>ch\<close> that
  carries one, together with a nil result map: nothing collected from the messages before
  it is returned.
\<close>

theorem searchAll_first_error:
  assumes "mset ch = mset (tasks search repos)"
    and "\<forall>name\<in>set repos. snd (search name) = None \<longrightarrow> fst (search name) \<noteq> None"
    and "\<exists>name\<in>set repos. snd (search name) \<noteq> None"
  shows "\<exists>pre r post e filesOpened'.
           ch = pre @ r # post \<and> (\<forall>p\<in>set pre. err p = None) \<and> err r = Some e \<and>
           searchAll ch filesOpened duration elapsed = Returned None (Some e) filesOpened' duration"
proof -
  from assms(3) obtain name where n: "name \<in> set repos" "snd (search name) \<noteq> None"
    by blast
  then have "\<lparr>repo = name, res = fst (search name), err = snd (search name)\<rparr> \<in> set (tasks search repos)"
    by (auto simp: tasks_def)
  moreover have "set ch = set (tasks search repos)"
    using assms(1) by (rule mset_eq_setD)
  ultimately have "\<lparr>repo = name, res = fst (search name), err = snd (search name)\<rparr> \<in> set ch"
    by simp
  then have "\<exists>r\<in>set ch. err r \<noteq> None"
    using n(2) by (intro bexI [where x = "\<lparr>repo = name, res = fst (search name), err = snd (search name)\<rparr>"]) simp_all
  then obtain pre r post where
    split: "ch = pre @ r # post" "err r \<noteq> None" "\<forall>p\<in>set pre. \<not> err p \<noteq> None"
    using split_list_first_prop [of ch "\<lambda>r. err r \<noteq> None"] by blast
  then obtain e where e: "err r = Some e"
    by auto
  have ok: "\<forall>p\<in>set pre. err p = None \<and> res p \<noteq> None"
  proof
    fix p assume p: "p \<in> set pre"
    then have "p \<in> set ch" using split(1) by simp
    from task_message [OF assms(1) this] obtain nm where
      "nm \<in> set repos" "res p = fst (search nm)" "err p = snd (search nm)"
      by blast
    moreover have "err p = None" using split(3) p by simp
    ultimately show "err p = None \<and> res p \<noteq> None"
      using assms(2) by auto
  qed
  have "searchAll ch filesOpened duration elapsed =
          Returned None (Some e) (filesOpened + sum_list (map counted pre)) duration"
    unfolding searchAll_def split(1) by (rule receive_error [OF ok e])
  then show ?thesis
    using split(1) ok e by blast
qed

text \<open>
  C5, amended. When every search succeeds, \<open>searchAll\<close> returns no error, the counter of
  opened files has grown by the sum of the \<open>FilesOpened\<close> of those tasks whose response
  has matches that are not nil (the counts of the others are left out), the measured time
  is stored, and the result map holds exactly the repositories whose response has matches
  that are not nil, each with its response.
\<close>

theorem searchAll_success:
  assumes "mset ch = mset (tasks search repos)"
    and "\<forall>name\<in>set repos. snd (search name) = None \<and> fst (search name) \<noteq> None"
  shows "\<exists>m. searchAll ch filesOpened duration elapsed =
               Returned (Some m) None
                 (filesOpened + sum_list (map counted (tasks search repos))) elapsed \<and>
             dom m = repo ` {r \<in> set (tasks search repos). hasMatches r} \<and>
             (\<forall>name\<in>dom m. m name = fst (search name))"
proof -
  have ok: "\<forall>r\<in>set ch. err r = None \<and> res r \<noteq> None"
  proof
    fix r assume "r \<in> set ch"
    from task_message [OF assms(1) this] show "err r = None \<and> res r \<noteq> None"
      using assms(2) by auto
  qed
  from receive_success [OF ok, of Map.empty filesOpened duration elapsed] obtain m where
    m: "receive ch Map.empty filesOpened duration elapsed =
          Returned (Some m) None (filesOpened + sum_list (map counted ch)) elapsed"
       "dom m = dom (Map.empty :: string \<rightharpoonup> 'a SearchResponse) \<union> repo ` {r \<in> set ch. hasMatches r}"
       "\<forall>n response. m n = Some response \<longrightarrow>
          (Map.empty :: string \<rightharpoonup> 'a SearchResponse) n = Some response \<or>
          (\<exists>r\<in>set ch. repo r = n \<and> res r = Some response)"
    by blast
  have sum: "sum_list (map counted ch) = sum_list (map counted (tasks search repos))"
    by (rule sum_list_mset_cong [OF assms(1)])
  have sets: "set ch = set (tasks search repos)"
    using assms(1) by (rule mset_eq_setD)
  have "\<forall>name\<in>dom m. m name = fst (search name)"
  proof
    fix name assume "name \<in> dom m"
    then obtain response where r: "m name = Some response" by auto
    with m(3) obtain x where x: "x \<in> set ch" "repo x = name" "res x = Some response"
      by auto
    from task_message [OF assms(1) x(1)] x(2,3) have "fst (search name) = Some response"
      by auto
    then show "m name = fst (search name)" using r by simp
  qed
  then show ?thesis
    using m(1,2) sum sets by (auto simp: searchAll_def)
qed


theorem searchAll_first_error_witness:
  "mset [\<lparr>repo = ''C'', res = Some \<lparr>Matches = Some [()], FilesOpened = 5\<rparr>, err = None\<rparr>,
         \<lparr>repo = ''B'', res = None, err = Some ''boom''\<rparr>,
         \<lparr>repo = ''A'', res = Some \<lparr>Matches = Some [()], FilesOpened = 3\<rparr>, err = None\<rparr>] =
   mset (tasks (\<lambda>name. if name = ''B'' then (None, Some ''boom'')
                  else if name = ''A'' then (Some \<lparr>Matches = Some [()], FilesOpened = 3\<rparr>, None)
                  else (Some \<lparr>Matches = Some [()], FilesOpened = 5\<rparr>, None)) [''A'', ''B'', ''C'']) \<and>
   searchAll [\<lparr>repo = ''C'', res = Some \<lparr>Matches = Some [()], FilesOpened = 5\<rparr>, err = None\<rparr>,
              \<lparr>repo = ''B'', res = None, err = Some ''boom''\<rparr>,
              \<lparr>repo = ''A'', res = Some \<lparr>Matches = Some [()], FilesOpened = 3\<rparr>, err = None\<rparr>] 0 0 40 =
     Returned None (Some ''boom'') 5 0"
  using searchAll_first_error [of
      "[\<lparr>repo = ''C'', res = Some \<lparr>Matches = Some [()], FilesOpened = 5\<rparr>, err = None\<rparr>,
        \<lparr>repo = ''B'', res = None, err = Some ''boom''\<rparr>,
        \<lparr>repo = ''A'', res = Some \<lparr>Matches = Some [()], FilesOpened = 3\<rparr>, err = None\<rparr>]"
      "\<lambda>name. if name = ''B'' then (None, Some ''boom'')
                  else if name = ''A'' then (Some \<lparr>Matches = Some [()], FilesOpened = 3\<rparr>, None)
                  else (Some \<lparr>Matches = Some [()], FilesOpened = 5\<rparr>, None)"
      "[''A'', ''B'', ''C'']" 0 0 40]
  by (simp add: tasks_def searchAll_def)

text \<open>
  C5 as stated fails: with A opening 3 files and matching, and C opening 5 files without
  a match, both searches succeed and the counter is 3, not 8.
\<close>

theorem searchAll_FilesOpened_counterexample:
  "searchAll [\<lparr>repo = ''A'', res = Some \<lparr>Matches = Some [()], FilesOpened = 3\<rparr>, err = None\<rparr>,
              \<lparr>repo = ''C'', res = Some \<lparr>Matches = None, FilesOpened = 5\<rparr>, err = None\<rparr>] 0 0 40 =
     Returned (Some [''A'' \<mapsto> \<lparr>Matches = Some [()], FilesOpened = 3\<rparr>]) None 3 40 \<and>
   FilesOpened \<lparr>Matches = Some [()], FilesOpened = 3\<rparr> +
     FilesOpened \<lparr>Matches = (None :: unit list option), FilesOpened = 5\<rparr> = (8 :: goint) \<and>
   (3 :: goint) \<noteq> 8"
  by (simp add: searchAll_def)

theorem searchAll_success_witness:
  "mset [\<lparr>repo = ''C'', res = Some \<lparr>Matches = Some [()], FilesOpened = 5\<rparr>, err = None\<rparr>,
         \<lparr>repo = ''B'', res = Some \<lparr>Matches = None, FilesOpened = 7\<rparr>, err = None\<rparr>,
         \<lparr>repo = ''A'', res = Some \<lparr>Matches = Some [()], FilesOpened = 3\<rparr>, err = None\<rparr>] =
   mset (tasks (\<lambda>name. if name = ''B'' then (Some \<lparr>Matches = None, FilesOpened = 7\<rparr>, None)
                  else if name = ''A'' then (Some \<lparr>Matches = Some [()], FilesOpened = 3\<rparr>, None)
                  else (Some \<lparr>Matches = Some [()], FilesOpened = 5\<rparr>, None)) [''A'', ''B'', ''C'']) \<and>
   searchAll [\<lparr>repo = ''C'', res = Some \<lparr>Matches = Some [()], FilesOpened = 5\<rparr>, err = None\<rparr>,
              \<lparr>repo = ''B'', res = Some \<lparr>Matches = None, FilesOpened = 7\<rparr>, err = None\<rparr>,
              \<lparr>repo = ''A'', res = Some \<lparr>Matches = Some [()], FilesOpened = 3\<rparr>, err = None\<rparr>] 0 0 40 =
     Returned (Some [''C'' \<mapsto> \<lparr>Matches = Some [()], FilesOpened = 5\<rparr>,
                     ''A'' \<mapsto> \<lparr>Matches = Some [()], FilesOpened = 3\<rparr>]) None 8 40"
  using searchAll_success [of
      "[\<lparr>repo = ''C'', res = Some \<lparr>Matches = Some [()], FilesOpened = 5\<rparr>, err = None\<rparr>,
        \<lparr>repo = ''B'', res = Some \<lparr>Matches = None, FilesOpened = 7\<rparr>, err = None\<rparr>,
        \<lparr>repo = ''A'', res = Some \<lparr>Matches = Some [()], FilesOpened = 3\<rparr>, err = None\<rparr>]"
      "\<lambda>name. if name = ''B'' then (Some \<lparr>Matches = None, FilesOpened = 7\<rparr>, None)
                  else if name = ''A'' then (Some \<lparr>Matches = Some [()], FilesOpened = 3\<rparr>, None)
                  else (Some \<lparr>Matches = Some [()], FilesOpened = 5\<rparr>, None)"
      "[''A'', ''B'', ''C'']" 0 0 40]
  by (simp add: tasks_def searchAll_def)


section \<open>Properties of the git driver\<close>

lemma run_result:
  "run sys desc dir cmd args st =
     (let ((out, e), w) = combinedOutput sys dir (cmd # args) (world st)
      in ((out, None),
          st\<lparr>world := w,
             logs := (case e of
                        None \<Rightarrow> logs st
                      | Some failure \<Rightarrow>
                          logs st @
                          [''Failed to '' @ desc @ '' '' @ dir @ '', see output below'' @ [CHR 0x0A] @
                           out @ ''Continuing...''])\<rparr>))"
  by (simp add: run_def Let_def split: prod.splits option.splits)

lemma run_no_error: "snd (fst (run sys desc dir cmd args st)) = None"
  by (simp add: run_def Let_def split: prod.splits option.splits)

text \<open>
  C3. \<open>run\<close> never returns an error: when the command fails, it logs the failure with the
  command's output and returns the output with a nil error. So \<open>Pull\<close> takes neither of
  its two error exits, and what it returns is the result of \<open>HeadRev\<close> in the state
  reached after the fetch and the reset were attempted, whether or not they succeeded.
\<close>

theorem Pull_swallows_failures:
  "snd (fst (run sys desc dir cmd args st')) = None \<and>
   (\<forall>out e w. combinedOutput sys dir (cmd # args) (world st') = ((out, Some e), w) \<longrightarrow>
      run sys desc dir cmd args st' =
        ((out, None),
         st'\<lparr>world := w,
             logs := logs st' @
               [''Failed to '' @ desc @ '' '' @ dir @ '', see output below'' @ [CHR 0x0A] @
                out @ ''Continuing...'']\<rparr>)) \<and>
   Pull sys g dir st =
     HeadRev sys g dir
       (snd (run sys ''git reset'' dir ''git'' (resetArgs (fst (targetRef sys g dir st)))
          (snd (run sys ''git fetch'' dir ''git'' (fetchArgs (fst (targetRef sys g dir st)))
             (snd (targetRef sys g dir st))))))"
proof -
  obtain t st1 where tr: "targetRef sys g dir st = (t, st1)"
    by (cases "targetRef sys g dir st")
  obtain out1 e1 st2 where r1: "run sys ''git fetch'' dir ''git'' (fetchArgs t) st1 = ((out1, e1), st2)"
    by (cases "run sys ''git fetch'' dir ''git'' (fetchArgs t) st1") auto
  obtain out2 e2 st3 where r2: "run sys ''git reset'' dir ''git'' (resetArgs t) st2 = ((out2, e2), st3)"
    by (cases "run sys ''git reset'' dir ''git'' (resetArgs t) st2") auto
  have e1: "e1 = None"
    using run_no_error [of sys "''git fetch''" dir "''git''" "fetchArgs t" st1] r1 by simp
  have e2: "e2 = None"
    using run_no_error [of sys "''git reset''" dir "''git''" "resetArgs t" st2] r2 by simp
  have "Pull sys g dir st = HeadRev sys g dir st3"
    by (simp add: Pull_def tr r1 r2 e1 e2)
  then have pull: "Pull sys g dir st =
     HeadRev sys g dir
       (snd (run sys ''git reset'' dir ''git'' (resetArgs (fst (targetRef sys g dir st)))
          (snd (run sys ''git fetch'' dir ''git'' (fetchArgs (fst (targetRef sys g dir st)))
             (snd (targetRef sys g dir st))))))"
    by (simp add: tr r1 r2)
  have logged: "\<forall>out e w. combinedOutput sys dir (cmd # args) (world st') = ((out, Some e), w) \<longrightarrow>
      run sys desc dir cmd args st' =
        ((out, None),
         st'\<lparr>world := w,
             logs := logs st' @
               [''Failed to '' @ desc @ '' '' @ dir @ '', see output below'' @ [CHR 0x0A] @
                out @ ''Continuing...'']\<rparr>)"
    by (simp add: run_result)
  show ?thesis
    using run_no_error [of sys desc dir cmd args st'] logged pull by (intro conjI)
qed


theorem Pull_swallows_failures_witness:
  "combinedOutput
     \<lparr>combinedOutput = (\<lambda>dir argv (w::unit). ((''fatal: no remote'', Some ''exit status 128''), w)),
       piped = (\<lambda>dir argv w.
         (\<lparr>pipeErr = None, startErr = None, copyErr = None, stdout = ''abc123'' @ [CHR 0x0A],
           waitErr = None\<rparr>, w))\<rparr>
     ''/data/repo'' (''git'' # fetchArgs ''main'') () =
       ((''fatal: no remote'', Some ''exit status 128''), ()) \<and>
   Pull
     \<lparr>combinedOutput = (\<lambda>dir argv (w::unit). ((''fatal: no remote'', Some ''exit status 128''), w)),
       piped = (\<lambda>dir argv w.
         (\<lparr>pipeErr = None, startErr = None, copyErr = None, stdout = ''abc123'' @ [CHR 0x0A],
           waitErr = None\<rparr>, w))\<rparr>
     \<lparr>DetectRef = False, Ref = ''main'', Username = [], Password = []\<rparr> ''/data/repo''
     \<lparr>world = (), logs = []\<rparr> =
   ((''abc123'', None),
    \<lparr>world = (),
      logs = [''Failed to git fetch /data/repo, see output below'' @ [CHR 0x0A] @
                ''fatal: no remoteContinuing...'',
              ''Failed to git reset /data/repo, see output below'' @ [CHR 0x0A] @
                ''fatal: no remoteContinuing...'']\<rparr>)"
  using Pull_swallows_failures [of
      "\<lparr>combinedOutput = (\<lambda>dir argv (w::unit). ((''fatal: no remote'', Some ''exit status 128''), w)),
        piped = (\<lambda>dir argv w.
          (\<lparr>pipeErr = None, startErr = None, copyErr = None, stdout = ''abc123'' @ [CHR 0x0A],
            waitErr = None\<rparr>, w))\<rparr>"
      "''git fetch''" "''/data/repo''" "''git''" "fetchArgs ''main''" "\<lparr>world = (), logs = []\<rparr>"
      "\<lparr>DetectRef = False, Ref = ''main'', Username = [], Password = []\<rparr>"
      "\<lparr>world = (), logs = []\<rparr>"]
  by (simp add: targetRef_def run_def HeadRev_def TrimSpace_def spaceRunes_def fetchArgs_def
      resetArgs_def)

lemma FindHeadBranch_nonempty: "FindHeadBranch s = Some b \<Longrightarrow> b \<noteq> []"
  by (induction s) (auto split: if_splits)

lemma targetRef_explicit: "Ref g \<noteq> [] \<Longrightarrow> targetRef sys g dir st = (Ref g, st)"
  by (simp add: targetRef_def)

lemma targetRef_disabled: "Ref g = [] \<Longrightarrow> \<not> DetectRef g \<Longrightarrow> targetRef sys g dir st = (defaultRef, st)"
  by (simp add: targetRef_def)

lemma targetRef_detect:
  "Ref g = [] \<Longrightarrow> DetectRef g \<Longrightarrow>
   fst (targetRef sys g dir st) =
     (case FindHeadBranch (fst (fst (combinedOutput sys dir [''git'', ''remote'', ''show'', ''origin''] (world st)))) of
        None \<Rightarrow> defaultRef
      | Some branch \<Rightarrow> branch)"
  by (auto simp add: targetRef_def detectRef_def run_result Let_def
      split: prod.splits option.splits dest: FindHeadBranch_nonempty)


text \<open>
  C6. With no configured ref and detection enabled, a \<open>git remote show origin\<close> that fails
  after printing a \<open>HEAD branch:\<close> line resolves to the branch of that line and not to
  \<open>master\<close>: \<open>run\<close> has dropped the error, so the test of it in \<open>detectRef\<close> never
  succeeds. The other cases resolve as the three lemmas above say.
\<close>

theorem targetRef_failed_detection_not_fallback:
  "fst (targetRef
     \<lparr>combinedOutput = (\<lambda>dir argv (w::unit).
         ((''  HEAD branch: main'' @ [CHR 0x0A] @ ''fatal: the remote end hung up'' @ [CHR 0x0A],
           Some ''exit status 128''), w)),
       piped = (\<lambda>dir argv w.
         (\<lparr>pipeErr = None, startErr = None, copyErr = None, stdout = [], waitErr = None\<rparr>, w))\<rparr>
     \<lparr>DetectRef = True, Ref = [], Username = [], Password = []\<rparr> ''/data/repo''
     \<lparr>world = (), logs = []\<rparr>) = ''main''"
  by (simp add: targetRef_def detectRef_def run_def)


section \<open>Properties of merging the VCS configurations\<close>

lemma map_of_setKey: "map_of (setKey name val m) = (map_of m)(name \<mapsto> val)"
  by (induction m) (auto simp: fun_eq_iff)

text \<open>
  The inner loop computes the global values overridden by the repository's own: the
  result depends on the entries of the global map only through \<^const>\<open>map_of\<close>, so
  not on the order in which \<open>range\<close> visits them.
\<close>

lemma fillMissing_Some:
  "\<exists>merged. fillMissing entries (Some m) = Done (Some merged) \<and>
            map_of merged = map_of entries ++ map_of m"
proof (induction entries arbitrary: m)
  case Nil
  then show ?case by simp
next
  case (Cons entry entries)
  obtain name val where entry: "entry = (name, val)" by (cases entry)
  show ?case
  proof (cases "map_of m name")
    case None
    from Cons.IH [of "setKey name val m"] obtain merged where
      merged: "fillMissing entries (Some (setKey name val m)) = Done (Some merged)"
        "map_of merged = map_of entries ++ map_of (setKey name val m)"
      by blast
    have "map_of entries ++ map_of (setKey name val m) = map_of (entry # entries) ++ map_of m"
    proof
      fix k
      show "(map_of entries ++ map_of (setKey name val m)) k = (map_of (entry # entries) ++ map_of m) k"
        using None entry
        by (cases "k = name") (simp_all add: map_of_setKey map_add_def split: option.splits)
    qed
    then have maps: "map_of merged = map_of (entry # entries) ++ map_of m"
      using merged(2) by (simp only:)
    have "fillMissing (entry # entries) (Some m) = fillMissing entries (Some (setKey name val m))"
      using None entry by simp
    then have "fillMissing (entry # entries) (Some m) = Done (Some merged)"
      using merged(1) by (simp only:)
    then show ?thesis
      using maps by blast
  next
    case (Some present)
    from Cons.IH [of m] obtain merged where
      merged: "fillMissing entries (Some m) = Done (Some merged)"
        "map_of merged = map_of entries ++ map_of m"
      by blast
    have "map_of entries ++ map_of m = map_of (entry # entries) ++ map_of m"
    proof
      fix k
      show "(map_of entries ++ map_of m) k = (map_of (entry # entries) ++ map_of m) k"
        using Some entry
        by (cases "k = name") (simp_all add: map_add_def split: option.splits)
    qed
    then have maps: "map_of merged = map_of (entry # entries) ++ map_of m"
      using merged(2) by (simp only:)
    have "fillMissing (entry # entries) (Some m) = fillMissing entries (Some m)"
      using Some entry by simp
    then have "fillMissing (entry # entries) (Some m) = Done (Some merged)"
      using merged(1) by (simp only:)
    then show ?thesis
      using maps by blast
  qed
qed

lemma map_add_fill:
  "(g ++ m) k = (case m k of Some v \<Rightarrow> Some v | None \<Rightarrow> g k)"
  by (simp add: map_add_def split: option.splits)

lemma decodeGlobals_keeps:
  "decodeGlobals js msgs acc = Done (Inr g) \<Longrightarrow> vcs \<notin> fst ` set msgs \<Longrightarrow> g vcs = acc vcs"
proof (induction msgs arbitrary: acc)
  case Nil
  then show ?case by simp
next
  case (Cons entry msgs)
  obtain k c where entry: "entry = (k, c)" by (cases entry)
  from Cons.prems entry obtain bb d where c: "c = Some bb" "Unmarshal js bb = Inr d"
    "decodeGlobals js msgs (acc(k \<mapsto> d)) = Done (Inr g)"
    by (auto split: option.splits sum.splits)
  have "g vcs = (acc(k \<mapsto> d)) vcs"
    using Cons.IH [OF c(3)] Cons.prems(2) by simp
  then show ?case using Cons.prems(2) entry by auto
qed

lemma decodeGlobals_lookup:
  assumes "decodeGlobals js msgs acc = Done (Inr g)"
    and "distinct (map fst msgs)"
    and "map_of msgs vcs = Some (Some b)"
  shows "\<exists>decoded. Unmarshal js b = Inr decoded \<and> g vcs = Some decoded"
  using assms
proof (induction msgs arbitrary: acc)
  case Nil
  then show ?case by simp
next
  case (Cons entry msgs)
  obtain k c where entry: "entry = (k, c)" by (cases entry)
  from Cons.prems(1) entry obtain bb d where c: "c = Some bb" "Unmarshal js bb = Inr d"
    "decodeGlobals js msgs (acc(k \<mapsto> d)) = Done (Inr g)"
    by (auto split: option.splits sum.splits)
  show ?case
  proof (cases "k = vcs")
    case True
    then have "bb = b" using Cons.prems(3) entry c(1) by simp
    moreover have "vcs \<notin> fst ` set msgs" using Cons.prems(2) entry True by simp
    then have "g vcs = (acc(k \<mapsto> d)) vcs" using decodeGlobals_keeps [OF c(3)] by simp
    ultimately show ?thesis using c(2) True by simp
  next
    case False
    then have "map_of msgs vcs = Some (Some b)" using Cons.prems(3) entry by simp
    moreover have "distinct (map fst msgs)" using Cons.prems(2) by simp
    ultimately show ?thesis using Cons.IH [OF c(3)] by blast
  qed
qed

lemma mergeRepos_lookup:
  assumes "mergeRepos js g repos = Done (None, repos')"
    and "distinct (map fst repos)"
    and "map_of repos name = Some r"
    and "g (Vcs r) = Some globalVals"
  shows "\<exists>r'. map_of repos' name = Some r' \<and> mergeRepo js globalVals r = Done (Inr r')"
  using assms
proof (induction repos arbitrary: repos')
  case Nil
  then show ?case by simp
next
  case (Cons entry repos)
  obtain n0 r0 where entry: "entry = (n0, r0)" by (cases entry)
  from Cons.prems(1) entry obtain r0' rest' where
    step: "mergeRepos js g repos = Done (None, rest')" "repos' = (n0, r0') # rest'"
      "(case g (Vcs r0) of None \<Rightarrow> r0' = r0 | Some gv \<Rightarrow> mergeRepo js gv r0 = Done (Inr r0'))"
    by (auto split: option.splits outcome.splits sum.splits prod.splits)
  show ?case
  proof (cases "n0 = name")
    case True
    then have "r0 = r" using Cons.prems(3) entry by simp
    then show ?thesis using step True Cons.prems(4) by simp
  next
    case False
    then have "map_of repos name = Some r" using Cons.prems(3) entry by simp
    moreover have "distinct (map fst repos)" using Cons.prems(2) by simp
    ultimately obtain r' where "map_of rest' name = Some r'" "mergeRepo js globalVals r = Done (Inr r')"
      using Cons.IH [OF step(1)] Cons.prems(4) by blast
    then show ?thesis using step(2) False by simp
  qed
qed

subsection \<open>The encoder and the decoder agree\<close>

text \<open>
  Whatever \<^const>\<open>marshal64\<close> encodes, \<^const>\<open>unmarshal64\<close> decodes to the same map: a
  whole number up to \<open>2 ^ 53\<close> is written with its own digits and read back without
  rounding, and the members are only reordered.
\<close>

lemma digit_cases:
  "d < (10::nat) \<Longrightarrow> d = 0 \<or> d = 1 \<or> d = 2 \<or> d = 3 \<or> d = 4 \<or> d = 5 \<or> d = 6 \<or> d = 7 \<or> d = 8 \<or> d = 9"
  by arith

lemma digitVal_digitChar: "d < 10 \<Longrightarrow> digitVal (digitChar d) = Some d"
proof -
  assume "d < 10"
  then have "d = 0 \<or> d = 1 \<or> d = 2 \<or> d = 3 \<or> d = 4 \<or> d = 5 \<or> d = 6 \<or> d = 7 \<or> d = 8 \<or> d = 9"
    by (rule digit_cases)
  then show ?thesis
    by (elim disjE) (simp_all add: digitChar_def digitVal_def)
qed

lemma plainByte_digitChar: "d < 10 \<Longrightarrow> plainByte (digitChar d)"
proof -
  assume "d < 10"
  then have "d = 0 \<or> d = 1 \<or> d = 2 \<or> d = 3 \<or> d = 4 \<or> d = 5 \<or> d = 6 \<or> d = 7 \<or> d = 8 \<or> d = 9"
    by (rule digit_cases)
  then show ?thesis
    by (elim disjE) (simp_all add: digitChar_def plainByte_def)
qed

lemma digitChar_zero: "d < 10 \<Longrightarrow> digitChar d = CHR ''0'' \<longleftrightarrow> d = 0"
proof -
  assume "d < 10"
  then have "d = 0 \<or> d = 1 \<or> d = 2 \<or> d = 3 \<or> d = 4 \<or> d = 5 \<or> d = 6 \<or> d = 7 \<or> d = 8 \<or> d = 9"
    by (rule digit_cases)
  then show ?thesis
    by (elim disjE) (simp_all add: digitChar_def)
qed

lemma showNat_nonempty: "showNat v \<noteq> []"
  by (subst showNat.simps) simp

lemma decimalValue_append:
  "decimalValue n (xs @ ys) = (case decimalValue n xs of None \<Rightarrow> None | Some m \<Rightarrow> decimalValue m ys)"
  by (induction xs arbitrary: n) (auto split: option.splits)

lemma decimalValue_showNat: "decimalValue 0 (showNat v) = Some v"
proof (induction v rule: showNat.induct)
  case (1 n)
  show ?case
  proof (cases "n < 10")
    case True
    then show ?thesis
      by (subst showNat.simps) (simp add: digitVal_digitChar)
  next
    case False
    have "n mod 10 < 10" by simp
    then show ?thesis
      using False 1
      by (subst showNat.simps) (simp add: decimalValue_append digitVal_digitChar)
  qed
qed

lemma showNat_plain: "list_all plainByte (showNat v)"
proof (induction v rule: showNat.induct)
  case (1 n)
  show ?case
  proof (cases "n < 10")
    case True
    then show ?thesis
      by (subst showNat.simps) (simp add: plainByte_digitChar)
  next
    case False
    have "n mod 10 < 10" by simp
    then show ?thesis
      using False 1
      by (subst showNat.simps) (simp add: plainByte_digitChar)
  qed
qed

lemma showNat_hd: "hd (showNat v) = CHR ''0'' \<Longrightarrow> v = 0"
proof (induction v rule: showNat.induct)
  case (1 n)
  show ?case
  proof (cases "n < 10")
    case True
    then show ?thesis
      using 1(2) digitChar_zero [of n] by (subst (asm) showNat.simps) simp
  next
    case False
    then have "hd (showNat (n div 10)) = CHR ''0''"
      using 1(2) showNat_nonempty [of "n div 10"] by (subst (asm) showNat.simps) simp
    then have "n div 10 = 0" using 1(1) False by simp
    then show ?thesis using False by simp
  qed
qed

lemma showNat_length_one: "length (showNat v) > 1 \<Longrightarrow> v \<ge> 10"
  by (subst (asm) showNat.simps) (auto split: if_splits)

lemma bitlen_le: "v < 2 ^ k \<Longrightarrow> bitlen v \<le> k"
proof (induction v arbitrary: k rule: bitlen.induct)
  case (1 n)
  show ?case
  proof (cases "n = 0")
    case True
    then show ?thesis by (subst bitlen.simps) simp
  next
    case False
    then obtain j where k: "k = Suc j" using 1(2) by (cases k) auto
    have "n div 2 < 2 ^ j" using 1(2) k by auto
    then have "bitlen (n div 2) \<le> j" using 1(1) False by simp
    then show ?thesis using False k by (subst bitlen.simps) simp
  qed
qed

lemma bitlen_pow: "bitlen (2 ^ k) = Suc k"
proof (induction k)
  case 0
  show ?case by (subst bitlen.simps, subst bitlen.simps) simp
next
  case (Suc k)
  then show ?case by (subst bitlen.simps) simp
qed

lemma round64_small: "v \<le> 2 ^ 53 \<Longrightarrow> round64 v = v"
proof (cases "v = 2 ^ 53")
  case True
  have "bitlen ((2::nat) ^ 53) = 54" using bitlen_pow [of 53] by simp
  then show ?thesis using True by (simp add: round64_def Let_def)
next
  case False
  assume "v \<le> 2 ^ 53"
  then have "v < 2 ^ 53" using False by simp
  then have "bitlen v \<le> 53" by (rule bitlen_le)
  then show ?thesis by (simp add: round64_def)
qed

lemma numberValue_showNat: "v \<le> 2 ^ 53 \<Longrightarrow> numberValue (showNat v) = Some v"
proof -
  assume v: "v \<le> 2 ^ 53"
  have "\<not> (length (showNat v) > 1 \<and> hd (showNat v) = CHR ''0'')"
    using showNat_hd [of v] showNat_length_one [of v] by auto
  moreover have "v < (2::nat) ^ 1024"
  proof -
    have "(2::nat) ^ 53 < 2 ^ 1024" by (rule power_strict_increasing) simp_all
    then show ?thesis using v by linarith
  qed
  ultimately show ?thesis
    using v by (simp add: numberValue_def showNat_nonempty decimalValue_showNat round64_small)
qed

lemma plainByte_marks:
  "\<not> plainByte (CHR 0x22)" "\<not> plainByte (CHR '','')" "\<not> plainByte (CHR '':'')"
  by (simp_all add: plainByte_def)

lemma parseMember_member:
  assumes "list_all plainByte k" and "v \<le> 2 ^ 53"
  shows "parseMember (quoted k @ '':'' @ showNat v) = Some (k, v)"
proof -
  have k: "\<And>x. x \<in> set k \<Longrightarrow> plainByte x"
    using assms(1) by (simp add: list_all_iff)
  have t: "takeWhile plainByte (k @ CHR 0x22 # CHR '':'' # showNat v) = k"
    using k by (simp add: takeWhile_append2 plainByte_marks)
  have d: "dropWhile plainByte (k @ CHR 0x22 # CHR '':'' # showNat v) = CHR 0x22 # CHR '':'' # showNat v"
    using k by (simp add: dropWhile_append2 plainByte_marks)
  show ?thesis
    using t d numberValue_showNat [OF assms(2)] by (simp add: parseMember_def quoted_def)
qed

lemma Split_nonempty: "Split s sep \<noteq> []"
  by (induction s) (auto split: list.splits)

lemma Split_plain: "sep \<notin> set m \<Longrightarrow> Split m sep = [m]"
  by (induction m) (auto split: list.splits)

lemma Split_append: "sep \<notin> set m \<Longrightarrow> Split (m @ sep # rest) sep = m # Split rest sep"
  by (induction m) (auto split: list.splits simp: Split_nonempty)

lemma Split_joinMembers:
  "ms \<noteq> [] \<Longrightarrow> \<forall>m \<in> set ms. CHR '','' \<notin> set m \<Longrightarrow> Split (joinMembers ms) (CHR '','') = ms"
proof (induction ms rule: joinMembers.induct)
  case 1
  then show ?case by simp
next
  case (2 m)
  then show ?case by (simp add: Split_plain)
next
  case (3 m m' ms)
  then show ?case by (simp add: Split_append)
qed

lemma joinMembers_nonempty: "ms \<noteq> [] \<Longrightarrow> hd ms \<noteq> [] \<Longrightarrow> joinMembers ms \<noteq> []"
  by (induction ms rule: joinMembers.induct) auto

lemma member_no_comma:
  assumes "list_all plainByte k"
  shows "CHR '','' \<notin> set (quoted k @ '':'' @ showNat v)"
proof -
  have "CHR '','' \<notin> set k"
    using assms plainByte_marks(2) by (auto simp: list_all_iff)
  moreover have "CHR '','' \<notin> set (showNat v)"
    using showNat_plain [of v] plainByte_marks(2) by (auto simp: list_all_iff)
  ultimately show ?thesis by (simp add: quoted_def)
qed

lemma those_map_inverse: "\<forall>e \<in> set es. f (g e) = Some e \<Longrightarrow> those (map f (map g es)) = Some es"
  by (induction es) simp_all

lemma those_parseMember:
  assumes "list_all (\<lambda>e. list_all plainByte (fst e) \<and> snd e \<le> 2 ^ 53) es"
  shows "those (map parseMember (map (\<lambda>e. quoted (fst e) @ '':'' @ showNat (snd e)) es)) = Some es"
proof (rule those_map_inverse, rule ballI)
  fix e
  assume "e \<in> set es"
  then have "list_all plainByte (fst e)" and "snd e \<le> 2 ^ 53"
    using assms by (auto simp: list_all_iff)
  then have "parseMember (quoted (fst e) @ '':'' @ showNat (snd e)) = Some (fst e, snd e)"
    by (rule parseMember_member)
  then show "parseMember (quoted (fst e) @ '':'' @ showNat (snd e)) = Some e"
    by simp
qed

lemma setKey_fresh: "name \<notin> fst ` set m \<Longrightarrow> setKey name val m = m @ [(name, val)]"
  by (induction m) auto

lemma fold_setKey_distinct:
  "distinct (map fst es) \<Longrightarrow> fst ` set acc \<inter> fst ` set es = {} \<Longrightarrow>
   fold (\<lambda>(k, v). setKey k v) es acc = acc @ es"
proof (induction es arbitrary: acc)
  case Nil
  then show ?case by simp
next
  case (Cons e es)
  obtain k v where e: "e = (k, v)" by (cases e)
  have "k \<notin> fst ` set acc" using Cons.prems(2) e by auto
  then have s: "setKey k v acc = acc @ [(k, v)]" by (rule setKey_fresh)
  have "fst ` set (acc @ [(k, v)]) \<inter> fst ` set es = {}"
    using Cons.prems e by auto
  then have "fold (\<lambda>(k, v). setKey k v) es (acc @ [(k, v)]) = (acc @ [(k, v)]) @ es"
    using Cons.IH Cons.prems(1) by simp
  then show ?case using s e by simp
qed

lemma mset_insertMember: "mset (insertMember e es) = add_mset e (mset es)"
  by (induction es) auto

lemma mset_sortMembers: "mset (sortMembers es) = mset es"
  by (induction es) (simp_all add: sortMembers_def mset_insertMember)

lemma sortMembers_set: "set (sortMembers es) = set es"
  using mset_sortMembers [of es] by (rule mset_eq_setD)

lemma sortMembers_distinct: "distinct (map fst es) \<Longrightarrow> distinct (map fst (sortMembers es))"
proof -
  assume d: "distinct (map fst es)"
  have "mset (map fst (sortMembers es)) = mset (map fst es)"
    by (simp add: mset_sortMembers)
  then show ?thesis using d mset_eq_imp_distinct_iff by blast
qed

lemma sortMembers_Nil: "sortMembers es = [] \<longleftrightarrow> es = []"
  using sortMembers_set [of es] by (metis set_empty)

lemma json64_round_trip:
  assumes "marshal64 (Some es) = Inr b"
  shows "\<exists>decoded. unmarshal64 b = Inr (Some decoded) \<and> map_of decoded = map_of es"
proof -
  let ?member = "\<lambda>e. quoted (fst e) @ '':'' @ showNat (snd e)"
  let ?ms = "map ?member (sortMembers es)"
  have d: "distinct (map fst es)"
    and p: "list_all (\<lambda>e. list_all plainByte (fst e) \<and> snd e \<le> 2 ^ 53) es"
    and b: "b = ''{'' @ joinMembers ?ms @ ''}''"
    using assms by (auto simp: marshal64_def split: if_splits)
  have ds: "distinct (map fst (sortMembers es))" using d by (rule sortMembers_distinct)
  have ps: "list_all (\<lambda>e. list_all plainByte (fst e) \<and> snd e \<le> 2 ^ 53) (sortMembers es)"
    using p by (simp add: list_all_iff sortMembers_set)
  have m: "map_of (sortMembers es) = map_of es"
    using map_of_inject_set [OF ds d] by (simp add: sortMembers_set)
  show ?thesis
  proof (cases "es = []")
    case True
    then have "b = ''{}''" using b by (simp add: sortMembers_def)
    then show ?thesis using True by (simp add: unmarshal64_def)
  next
    case False
    then have ne: "?ms \<noteq> []" by (simp add: sortMembers_Nil)
    have "hd ?ms \<noteq> []" using ne by (simp add: hd_map quoted_def)
    then have j: "joinMembers ?ms \<noteq> []" using ne by (rule joinMembers_nonempty [rotated])
    have nc: "\<forall>m \<in> set ?ms. CHR '','' \<notin> set m"
      using ps member_no_comma by (auto simp: list_all_iff)
    have sp: "Split (joinMembers ?ms) (CHR '','') = ?ms"
      using ne nc by (rule Split_joinMembers)
    have th: "those (map parseMember ?ms) = Some (sortMembers es)"
      using ps by (rule those_parseMember)
    have f: "fold (\<lambda>(k, v). setKey k v) (sortMembers es) [] = sortMembers es"
      using fold_setKey_distinct [OF ds, of "[]"] by simp
    have n1: "b \<noteq> ''null''" using b by simp
    have n2: "b \<noteq> ''{}''" using b j by simp
    have "unmarshal64 b = Inr (Some (sortMembers es))"
      using n1 n2 j sp th f unfolding b unmarshal64_def by (simp add: butlast_append)
    then show ?thesis using m by blast
  qed
qed

subsection \<open>The merged blob\<close>

text \<open>
  C8, amended. When \<open>mergeVCSConfigs\<close> succeeds, a repository whose VCS kind has a global
  default blob ends with the encoding of its decoded blob, to which the keys it lacks have
  been added from the decoded default. If that encoding decodes to the map that was
  encoded, then in the new blob every key present in the repository's own blob decodes to
  the value it decoded to there, and every other key decodes to the value of the default
  (and is absent when the default lacks it too). The encoder and the decoder of the
  previous sections meet that condition for every map they encode (\<open>json64_round_trip\<close>).
  The value kept is the decoded one: the text of a value may not survive, as the
  counterexample below shows.
\<close>

theorem mergeVCSConfigs_fills_absent:
  assumes "mergeVCSConfigs js cfg = Done (None, cfg')"
    and "distinct (map fst (Repos cfg))"
    and "map_of (Repos cfg) name = Some r"
    and "distinct (map fst (VCSConfigMessages cfg))"
    and "map_of (VCSConfigMessages cfg) (Vcs r) = Some (Some globalBytes)"
    and "Unmarshal js globalBytes = Inr (Some globalVals)"
    and "repoVals js r = Inr (Some vals)"
    and "\<forall>merged b. fillMissing globalVals (Some vals) = Done (Some merged) \<and>
           Marshal js (Some merged) = Inr b \<longrightarrow>
           (\<exists>decoded. Unmarshal js b = Inr (Some decoded) \<and> map_of decoded = map_of merged)"
  shows "\<exists>repoBytes decoded.
           map_of (Repos cfg') name = Some (r\<lparr>VcsConfigMessage := Some repoBytes\<rparr>) \<and>
           Unmarshal js repoBytes = Inr (Some decoded) \<and>
           (\<forall>k. map_of decoded k =
                  (case map_of vals k of Some v \<Rightarrow> Some v | None \<Rightarrow> map_of globalVals k))"
proof -
  have nonempty: "length (VCSConfigMessages cfg) \<noteq> 0"
    using assms(5) by auto
  from assms(1) nonempty obtain g repos' where
    g: "decodeGlobals js (VCSConfigMessages cfg) Map.empty = Done (Inr g)"
    and m: "mergeRepos js g (Repos cfg) = Done (None, repos')"
    and cfg': "cfg' = cfg\<lparr>Repos := repos'\<rparr>"
    by (auto simp: mergeVCSConfigs_def split: outcome.splits sum.splits prod.splits)
  from decodeGlobals_lookup [OF g assms(4) assms(5)] assms(6)
  have gv: "g (Vcs r) = Some (Some globalVals)" by auto
  from mergeRepos_lookup [OF m assms(2) assms(3) gv] obtain r' where
    r': "map_of repos' name = Some r'" "mergeRepo js (Some globalVals) r = Done (Inr r')"
    by blast
  from fillMissing_Some [of globalVals vals] obtain merged where
    merged: "fillMissing globalVals (Some vals) = Done (Some merged)"
      "map_of merged = map_of globalVals ++ map_of vals"
    by blast
  from r'(2) assms(7) merged(1) obtain repoBytes where
    b: "Marshal js (Some merged) = Inr repoBytes" "r' = r\<lparr>VcsConfigMessage := Some repoBytes\<rparr>"
    by (auto simp: mergeRepo_def split: sum.splits)
  from assms(8) merged(1) b(1) obtain decoded where
    d: "Unmarshal js repoBytes = Inr (Some decoded)" "map_of decoded = map_of merged"
    by blast
  have "\<forall>k. map_of decoded k =
          (case map_of vals k of Some v \<Rightarrow> Some v | None \<Rightarrow> map_of globalVals k)"
    by (simp add: d(2) merged(2) map_add_fill)
  then show ?thesis
    using r'(1) b(2) d(1) cfg' by auto
qed

text \<open>The definitions that a concrete run of the decoder and the encoder unfolds.\<close>

lemmas json64_defs =
  json64_def unmarshal64_def marshal64_def quoted_def parseMember_def plainByte_def
  numberValue_def digitVal_def round64_def bitlen.simps Let_def sortMembers_def showNat.simps
  digitChar_def

theorem mergeVCSConfigs_fills_absent_witness:
  "mergeVCSConfigs json64 exampleConfig =
     Done (None, exampleConfig\<lparr>Repos :=
       [(''svc'', emptyRepo\<lparr>Vcs := ''git'',
           VcsConfigMessage := Some (''{'' @ quoted ''depth'' @ '':1,'' @ quoted ''timeout'' @ '':30}'')\<rparr>),
        (''docs'', emptyRepo\<lparr>Vcs := ''hg''\<rparr>)]\<rparr>) \<and>
   Unmarshal json64 (''{'' @ quoted ''depth'' @ '':5,'' @ quoted ''timeout'' @ '':30}'') =
     Inr (Some [(''depth'', 5), (''timeout'', 30)]) \<and>
   repoVals json64
     (emptyRepo\<lparr>Vcs := ''git'', VcsConfigMessage := Some (''{'' @ quoted ''depth'' @ '':1}'')\<rparr>) =
     Inr (Some [(''depth'', 1)]) \<and>
   fillMissing [(''depth'', 5), (''timeout'', 30)] (Some [(''depth'', 1 :: nat)]) =
     Done (Some [(''depth'', 1), (''timeout'', 30)]) \<and>
   Unmarshal json64 (''{'' @ quoted ''depth'' @ '':1,'' @ quoted ''timeout'' @ '':30}'') =
     Inr (Some [(''depth'', 1), (''timeout'', 30)])"
proof -
  have run: "mergeVCSConfigs json64 exampleConfig =
     Done (None, exampleConfig\<lparr>Repos :=
       [(''svc'', emptyRepo\<lparr>Vcs := ''git'',
           VcsConfigMessage := Some (''{'' @ quoted ''depth'' @ '':1,'' @ quoted ''timeout'' @ '':30}'')\<rparr>),
        (''docs'', emptyRepo\<lparr>Vcs := ''hg''\<rparr>)]\<rparr>)"
    by (simp add: mergeVCSConfigs_def exampleConfig_def mergeRepo_def repoVals_def VcsConfig_def
        emptyRepo_def json64_defs)
  have g: "Unmarshal json64 (''{'' @ quoted ''depth'' @ '':5,'' @ quoted ''timeout'' @ '':30}'') =
     Inr (Some [(''depth'', 5), (''timeout'', 30)])"
    by (simp add: json64_defs)
  have v: "repoVals json64
     (emptyRepo\<lparr>Vcs := ''git'', VcsConfigMessage := Some (''{'' @ quoted ''depth'' @ '':1}'')\<rparr>) =
     Inr (Some [(''depth'', 1)])"
    by (simp add: repoVals_def VcsConfig_def json64_defs)
  have f: "fillMissing [(''depth'', 5), (''timeout'', 30)] (Some [(''depth'', 1 :: nat)]) =
     Done (Some [(''depth'', 1), (''timeout'', 30)])"
    by simp
  have d: "Unmarshal json64 (''{'' @ quoted ''depth'' @ '':1,'' @ quoted ''timeout'' @ '':30}'') =
     Inr (Some [(''depth'', 1), (''timeout'', 30)])"
    by (simp add: json64_defs)
  have e: "Marshal json64 (Some [(''depth'', 1), (''timeout'', 30)]) =
     Inr (''{'' @ quoted ''depth'' @ '':1,'' @ quoted ''timeout'' @ '':30}'')"
    by (simp add: json64_defs)
  have law: "\<forall>merged b.
      fillMissing [(''depth'', 5), (''timeout'', 30)] (Some [(''depth'', 1 :: nat)]) = Done (Some merged) \<and>
      Marshal json64 (Some merged) = Inr b \<longrightarrow>
      (\<exists>decoded. Unmarshal json64 b = Inr (Some decoded) \<and> map_of decoded = map_of merged)"
    using d e by (auto simp: f)
  have "\<exists>repoBytes decoded.
           map_of (Repos (exampleConfig\<lparr>Repos :=
             [(''svc'', emptyRepo\<lparr>Vcs := ''git'',
                 VcsConfigMessage := Some (''{'' @ quoted ''depth'' @ '':1,'' @ quoted ''timeout'' @ '':30}'')\<rparr>),
              (''docs'', emptyRepo\<lparr>Vcs := ''hg''\<rparr>)]\<rparr>)) ''svc'' =
             Some (emptyRepo\<lparr>Vcs := ''git'', VcsConfigMessage := Some (''{'' @ quoted ''depth'' @ '':1}'')\<rparr>
                     \<lparr>VcsConfigMessage := Some repoBytes\<rparr>) \<and>
           Unmarshal json64 repoBytes = Inr (Some decoded) \<and>
           (\<forall>k. map_of decoded k =
                  (case map_of [(''depth'', 1 :: nat)] k of Some v \<Rightarrow> Some v
                   | None \<Rightarrow> map_of [(''depth'', 5), (''timeout'', 30)] k))"
    by (rule mergeVCSConfigs_fills_absent [OF run _ _ _ _ g v law])
       (simp_all add: exampleConfig_def emptyRepo_def)
  then show ?thesis
    using run g v f d by simp
qed

text \<open>
  C8 as stated fails: the repository's own \<open>"depth":9007199254740993\<close> does not keep its
  value. No \<open>float64\<close> is 9007199254740993, the blob decodes to 9007199254740992, and the
  merged blob is \<open>{"depth":9007199254740992,"timeout":30}\<close>.
\<close>

theorem mergeVCSConfigs_value_counterexample:
  "mergeVCSConfigs json64 bigNumberConfig =
     Done (None, bigNumberConfig\<lparr>Repos :=
       [(''svc'', emptyRepo\<lparr>Vcs := ''git'',
           VcsConfigMessage :=
             Some (''{'' @ quoted ''depth'' @ '':9007199254740992,'' @ quoted ''timeout'' @ '':30}'')\<rparr>),
        (''docs'', emptyRepo\<lparr>Vcs := ''hg''\<rparr>)]\<rparr>) \<and>
   map_of (Repos bigNumberConfig) ''svc'' =
     Some (emptyRepo\<lparr>Vcs := ''git'',
             VcsConfigMessage := Some (''{'' @ quoted ''depth'' @ '':9007199254740993}'')\<rparr>) \<and>
   Unmarshal json64 (''{'' @ quoted ''depth'' @ '':9007199254740993}'') =
     Inr (Some [(''depth'', 9007199254740992)]) \<and>
   (9007199254740993 :: nat) \<noteq> 9007199254740992"
proof -
  have run: "mergeVCSConfigs json64 bigNumberConfig =
     Done (None, bigNumberConfig\<lparr>Repos :=
       [(''svc'', emptyRepo\<lparr>Vcs := ''git'',
           VcsConfigMessage :=
             Some (''{'' @ quoted ''depth'' @ '':9007199254740992,'' @ quoted ''timeout'' @ '':30}'')\<rparr>),
        (''docs'', emptyRepo\<lparr>Vcs := ''hg''\<rparr>)]\<rparr>)"
    by (simp add: mergeVCSConfigs_def bigNumberConfig_def mergeRepo_def repoVals_def VcsConfig_def
        emptyRepo_def json64_defs)
  have d: "Unmarshal json64 (''{'' @ quoted ''depth'' @ '':9007199254740993}'') =
     Inr (Some [(''depth'', 9007199254740992)])"
    by (simp add: json64_defs)
  show ?thesis
    using run d by (simp add: bigNumberConfig_def)
qed

end
